theory Spec2Isabelle
  imports Main
begin

unbundle bit_operations_syntax

section \<open>JavaScript values\<close>

text \<open>
  The storage service works on plain data: what \<^verbatim>\<open>JSON.parse\<close> and object literals
  produce, plus \<^verbatim>\<open>undefined\<close>. An object is the list of its own properties in
  enumeration order (keys are distinct in a well-formed object). A number is carried by its
  canonical decimal rendering (the result of \<^verbatim>\<open>Number.prototype.toString\<close>, for instance
  \<^verbatim>\<open>6.8\<close>, \<^verbatim>\<open>0\<close>, \<^verbatim>\<open>NaN\<close>): the program only tests numbers for truthiness and
  prints them. Strings are byte strings (UTF-8).
\<close>

datatype jv =
    JUndefined
  | JNull
  | JBool bool
  | JNum string
  | JStr string
  | JArr "jv list"
  | JObj "(string \<times> jv) list"

datatype error =
    TypeError_read string
  | TypeError_convert
  | Error string

definition bindE :: "error + 'a \<Rightarrow> ('a \<Rightarrow> error + 'b) \<Rightarrow> error + 'b" where
  "bindE m f = (case m of Inl e \<Rightarrow> Inl e | Inr x \<Rightarrow> f x)"

text \<open>Truthiness, as tested by \<^verbatim>\<open>!x\<close> and \<^verbatim>\<open>x || y\<close>.\<close>

fun truthy :: "jv \<Rightarrow> bool" where
  "truthy JUndefined = False"
| "truthy JNull = False"
| "truthy (JBool b) = b"
| "truthy (JNum r) = (r \<noteq> ''0'' \<and> r \<noteq> ''NaN'')"
| "truthy (JStr s) = (s \<noteq> [])"
| "truthy (JArr xs) = True"
| "truthy (JObj kvs) = True"

definition jsOr :: "jv \<Rightarrow> jv \<Rightarrow> jv" where
  "jsOr a b = (if truthy a then a else b)"

definition nullish :: "jv \<Rightarrow> bool" where
  "nullish v = (v = JUndefined \<or> v = JNull)"

text \<open>
  Reading a property. The names this program reads from data values (\<^verbatim>\<open>proof\<close>,
  \<^verbatim>\<open>issuer\<close>, \<^verbatim>\<open>cid\<close>, \<^verbatim>\<open>location\<close>, ...) are not properties of any built-in
  prototype, so on an object the result is the own property or \<^verbatim>\<open>undefined\<close>, and on a
  string, number, boolean or array it is \<^verbatim>\<open>undefined\<close>. \<^verbatim>\<open>v.k\<close> throws a
  \<^verbatim>\<open>TypeError\<close> when \<^verbatim>\<open>v\<close> is \<^verbatim>\<open>undefined\<close> or \<^verbatim>\<open>null\<close>; \<^verbatim>\<open>v?.k\<close> yields
  \<^verbatim>\<open>undefined\<close> there.
\<close>

fun getProp :: "jv \<Rightarrow> string \<Rightarrow> jv" where
  "getProp (JObj kvs) k = (case map_of kvs k of Some v \<Rightarrow> v | None \<Rightarrow> JUndefined)"
| "getProp v k = JUndefined"

definition member :: "jv \<Rightarrow> string \<Rightarrow> error + jv" where
  "member v k = (if nullish v then Inl (TypeError_read k) else Inr (getProp v k))"

definition optMember :: "jv \<Rightarrow> string \<Rightarrow> jv" where
  "optMember v k = (if nullish v then JUndefined else getProp v k)"

fun join :: "string \<Rightarrow> string list \<Rightarrow> string" where
  "join sep [] = []"
| "join sep [x] = x"
| "join sep (x # y # ys) = x @ sep @ join sep (y # ys)"

text \<open>
  String conversion, as a template literal performs it. An array prints its elements
  separated by commas, \<^verbatim>\<open>undefined\<close> and \<^verbatim>\<open>null\<close> elements as the empty string. An
  object prints as \<^verbatim>\<open>[object Object]\<close> through the inherited \<^verbatim>\<open>toString\<close>; an own
  property of that name holds data, which is not callable, and the conversion then throws a
  \<^verbatim>\<open>TypeError\<close> (the inherited \<^verbatim>\<open>valueOf\<close> returns the object itself). \<open>None\<close> is the
  thrown \<^verbatim>\<open>TypeError\<close>.
\<close>

fun toStr :: "jv \<Rightarrow> string option"
  and toStr_elems :: "jv list \<Rightarrow> string list option" where
  "toStr JUndefined = Some ''undefined''"
| "toStr JNull = Some ''null''"
| "toStr (JBool b) = Some (if b then ''true'' else ''false'')"
| "toStr (JNum r) = Some r"
| "toStr (JStr s) = Some s"
| "toStr (JArr xs) = map_option (join '','') (toStr_elems xs)"
| "toStr (JObj kvs) =
     (if ''toString'' \<in> set (map fst kvs) then None else Some ''[object Object]'')"
| "toStr_elems [] = Some []"
| "toStr_elems (x # xs) =
     (case (if nullish x then Some [] else toStr x) of
        None \<Rightarrow> None
      | Some s \<Rightarrow> map_option ((#) s) (toStr_elems xs))"

definition toStringE :: "jv \<Rightarrow> error + string" where
  "toStringE v = (case toStr v of None \<Rightarrow> Inl TypeError_convert | Some s \<Rightarrow> Inr s)"

subsection \<open>\<^verbatim>\<open>JSON.stringify\<close>\<close>

definition hexdigit :: "nat \<Rightarrow> char" where
  "hexdigit n = ''0123456789abcdef'' ! n"

definition dquote :: char where
  "dquote = CHR 0x22"

definition backslash :: char where
  "backslash = CHR 0x5C"

definition escape_char :: "char \<Rightarrow> string" where
  "escape_char c =
     (if c = CHR 0x08 then [backslash, CHR ''b'']
      else if c = CHR 0x09 then [backslash, CHR ''t'']
      else if c = CHR 0x0A then [backslash, CHR ''n'']
      else if c = CHR 0x0C then [backslash, CHR ''f'']
      else if c = CHR 0x0D then [backslash, CHR ''r'']
      else if c = dquote then [backslash, dquote]
      else if c = backslash then [backslash, backslash]
      else if (of_char c :: nat) < 32 then
        [backslash, CHR ''u'', CHR ''0'', CHR ''0'',
         hexdigit (of_char c div 16), hexdigit (of_char c mod 16)]
      else [c])"

definition quote :: "string \<Rightarrow> string" where
  "quote s = dquote # concat (map escape_char s) @ [dquote]"

text \<open>
  \<^verbatim>\<open>JSON.stringify\<close> on data: \<open>None\<close> is the result \<^verbatim>\<open>undefined\<close>. Object members
  are written in the object's own key order, members whose value is \<^verbatim>\<open>undefined\<close> are
  left out, and an \<^verbatim>\<open>undefined\<close> array element is written \<^verbatim>\<open>null\<close>.
\<close>

fun JSON_stringify :: "jv \<Rightarrow> string option"
  and stringify_elems :: "jv list \<Rightarrow> string list"
  and stringify_members :: "(string \<times> jv) list \<Rightarrow> string list" where
  "JSON_stringify JUndefined = None"
| "JSON_stringify JNull = Some ''null''"
| "JSON_stringify (JBool b) = Some (if b then ''true'' else ''false'')"
| "JSON_stringify (JNum r) =
     Some (if r = ''NaN'' \<or> r = ''Infinity'' \<or> r = ''-Infinity'' then ''null'' else r)"
| "JSON_stringify (JStr s) = Some (quote s)"
| "JSON_stringify (JArr xs) = Some (''['' @ join '','' (stringify_elems xs) @ '']'')"
| "JSON_stringify (JObj kvs) = Some (''{'' @ join '','' (stringify_members kvs) @ ''}'')"
| "stringify_elems [] = []"
| "stringify_elems (x # xs) =
     (case JSON_stringify x of None \<Rightarrow> ''null'' | Some s \<Rightarrow> s) # stringify_elems xs"
| "stringify_members [] = []"
| "stringify_members (kv # kvs) =
     (case JSON_stringify (snd kv) of
        None \<Rightarrow> stringify_members kvs
      | Some s \<Rightarrow> (quote (fst kv) @ '':'' @ s) # stringify_members kvs)"


section \<open>The hash primitive\<close>

text \<open>
  \<^verbatim>\<open>sha256\<close> is imported from the \<^verbatim>\<open>js-sha256\<close> package: SHA-256 (FIPS 180-4) of
  the UTF-8 bytes of a string, printed as 64 lower-case hexadecimal digits. A 32-bit word
  is an \<open>int\<close> in \<open>0 ..< 2 ^ 32\<close> with the wrap-around written out.
\<close>

type_synonym u32 = int

type_synonym sha_state = "u32 \<times> u32 \<times> u32 \<times> u32 \<times> u32 \<times> u32 \<times> u32 \<times> u32"

definition add32 :: "u32 \<Rightarrow> u32 \<Rightarrow> u32" where
  "add32 x y = (x + y) mod 4294967296"

definition rotr :: "nat \<Rightarrow> u32 \<Rightarrow> u32" where
  "rotr n x = x div 2 ^ n + (x mod 2 ^ n) * 2 ^ (32 - n)"

definition shr :: "nat \<Rightarrow> u32 \<Rightarrow> u32" where
  "shr n x = x div 2 ^ n"

definition not32 :: "u32 \<Rightarrow> u32" where
  "not32 x = 4294967295 - x"

definition K256 :: "u32 list" where
  "K256 =
    [1116352408, 1899447441, 3049323471, 3921009573, 961987163, 1508970993,
     2453635748, 2870763221, 3624381080, 310598401, 607225278, 1426881987,
     1925078388, 2162078206, 2614888103, 3248222580, 3835390401, 4022224774,
     264347078, 604807628, 770255983, 1249150122, 1555081692, 1996064986,
     2554220882, 2821834349, 2952996808, 3210313671, 3336571891, 3584528711,
     113926993, 338241895, 666307205, 773529912, 1294757372, 1396182291,
     1695183700, 1986661051, 2177026350, 2456956037, 2730485921, 2820302411,
     3259730800, 3345764771, 3516065817, 3600352804, 4094571909, 275423344,
     430227734, 506948616, 659060556, 883997877, 958139571, 1322822218,
     1537002063, 1747873779, 1955562222, 2024104815, 2227730452, 2361852424,
     2428436474, 2756734187, 3204031479, 3329325298]"

definition H0 :: sha_state where
  "H0 = (1779033703, 3144134277, 1013904242, 2773480762,
        1359893119, 2600822924, 528734635, 1541459225)"

definition ssig0 :: "u32 \<Rightarrow> u32" where
  "ssig0 x = rotr 7 x XOR rotr 18 x XOR shr 3 x"

definition ssig1 :: "u32 \<Rightarrow> u32" where
  "ssig1 x = rotr 17 x XOR rotr 19 x XOR shr 10 x"

definition bsig0 :: "u32 \<Rightarrow> u32" where
  "bsig0 x = rotr 2 x XOR rotr 13 x XOR rotr 22 x"

definition bsig1 :: "u32 \<Rightarrow> u32" where
  "bsig1 x = rotr 6 x XOR rotr 11 x XOR rotr 25 x"

definition ch :: "u32 \<Rightarrow> u32 \<Rightarrow> u32 \<Rightarrow> u32" where
  "ch x y z = (x AND y) XOR (not32 x AND z)"

definition maj :: "u32 \<Rightarrow> u32 \<Rightarrow> u32 \<Rightarrow> u32" where
  "maj x y z = (x AND y) XOR (x AND z) XOR (y AND z)"

text \<open>The next word of the message schedule, from the words 2, 7, 15 and 16 places back.\<close>

definition sched_word :: "u32 \<Rightarrow> u32 \<Rightarrow> u32 \<Rightarrow> u32 \<Rightarrow> u32" where
  "sched_word w2 w7 w15 w16 = add32 (add32 (add32 (ssig1 w2) w7) (ssig0 w15)) w16"

fun round_out :: "sha_state \<Rightarrow> u32 \<Rightarrow> u32 \<Rightarrow> sha_state" where
  "round_out (a, b, c, d, e, f, g, h) t1 t2 = (add32 t1 t2, a, b, c, add32 d t1, e, f, g)"

fun round1 :: "sha_state \<Rightarrow> u32 \<Rightarrow> u32 \<Rightarrow> sha_state" where
  "round1 (a, b, c, d, e, f, g, h) k w =
     round_out (a, b, c, d, e, f, g, h)
       (add32 (add32 (add32 (add32 h (bsig1 e)) (ch e f g)) k) w)
       (add32 (bsig0 a) (maj a b c))"

text \<open>
  One round per constant. \<open>win\<close> is the window of the sixteen schedule words starting at
  the current round's; each round consumes its head and appends the word sixteen places on.
\<close>

fun rounds :: "u32 list \<Rightarrow> u32 list \<Rightarrow> sha_state \<Rightarrow> sha_state" where
  "rounds [] win st = st"
| "rounds (k # ks) win st =
     rounds ks (tl win @ [sched_word (win ! 14) (win ! 9) (win ! 1) (win ! 0)])
       (round1 st k (hd win))"

fun add_state :: "sha_state \<Rightarrow> sha_state \<Rightarrow> sha_state" where
  "add_state (a, b, c, d, e, f, g, h) (a', b', c', d', e', f', g', h') =
     (add32 a a', add32 b b', add32 c c', add32 d d',
      add32 e e', add32 f f', add32 g g', add32 h h')"

definition compress :: "sha_state \<Rightarrow> u32 list \<Rightarrow> sha_state" where
  "compress st blk = add_state st (rounds K256 blk st)"

fun be32 :: "int list \<Rightarrow> u32 list" where
  "be32 (a # b # c # d # bs) = (a * 16777216 + b * 65536 + c * 256 + d) # be32 bs"
| "be32 bs = []"

function process :: "sha_state \<Rightarrow> u32 list \<Rightarrow> sha_state" where
  "process st ws =
     (if ws = [] then st else process (compress st (take 16 ws)) (drop 16 ws))"
  by pat_completeness auto
termination
  by (relation "measure (\<lambda>(st, ws). length ws)") auto

definition len_bytes :: "nat \<Rightarrow> int list" where
  "len_bytes l = map (\<lambda>k. (8 * int l) div 256 ^ k mod 256) [7, 6, 5, 4, 3, 2, 1, 0]"

definition pad :: "int list \<Rightarrow> int list" where
  "pad m = m @ [128] @ replicate ((119 - length m mod 64) mod 64) 0 @ len_bytes (length m)"

definition hex32 :: "u32 \<Rightarrow> string" where
  "hex32 w = map (\<lambda>k. hexdigit (nat (w div 16 ^ k mod 16))) [7, 6, 5, 4, 3, 2, 1, 0]"

fun hex_state :: "sha_state \<Rightarrow> string" where
  "hex_state (a, b, c, d, e, f, g, h) = concat (map hex32 [a, b, c, d, e, f, g, h])"

definition sha256 :: "string \<Rightarrow> string" where
  "sha256 s = hex_state (process H0 (be32 (pad (map of_char s))))"


section \<open>The storage service\<close>

subsection \<open>Content addressing and credentials\<close>

text \<open>
  \<^verbatim>\<open>sha256(JSON.stringify(x))\<close>. Handed \<^verbatim>\<open>undefined\<close>, the hash function throws
  its \<^verbatim>\<open>input is invalid type\<close> error.
\<close>

definition sha256_of_json :: "jv \<Rightarrow> error + string" where
  "sha256_of_json x =
     (case JSON_stringify x of
        None \<Rightarrow> Inl (Error ''input is invalid type'')
      | Some s \<Rightarrow> Inr (sha256 s))"

definition computeCid :: "jv \<Rightarrow> error + string" where
  "computeCid data = sha256_of_json data"

text \<open>
  \<^verbatim>\<open>issueVerifiableCredential\<close> reads the clock and draws a UUID; both are arguments
  here: \<open>now\<close> is the value of \<^verbatim>\<open>new Date().toISOString()\<close> and \<open>uuid\<close> the value of
  \<^verbatim>\<open>uuidv4()\<close>. The result is \<^verbatim>\<open>{ vcObject, vcDigest }\<close>.
\<close>

definition issueVerifiableCredential ::
  "string \<Rightarrow> string \<Rightarrow> string \<Rightarrow> string \<Rightarrow> string \<Rightarrow> error + (jv \<times> string)" where
  "issueVerifiableCredential now uuid cid farmerId batchId =
     (let timestamp = now;
          issuerDid = ''did:agritrust:'' @ farmerId;
          mockSignature =
            sha256 (cid @ ''-'' @ timestamp @ ''-'' @ issuerDid @ ''-'' @ batchId @ ''-secret-key'');
          vcObject = JObj [
            (''@context'', JArr [JStr ''https://www.w3.org/2018/credentials/v1'']),
            (''type'', JArr [JStr ''VerifiableCredential'', JStr ''AgriTrustBatchCredential'']),
            (''id'', JStr (''vc:'' @ uuid)),
            (''issuer'', JStr issuerDid),
            (''issuanceDate'', JStr timestamp),
            (''credentialSubject'', JObj [
               (''id'', JStr (''did:agritrust:batch:'' @ batchId)),
               (''cid'', JStr cid),
               (''batchId'', JStr batchId),
               (''farmerId'', JStr farmerId)]),
            (''proof'', JObj [
               (''type'', JStr ''Ed25519Signature2020''),
               (''created'', JStr timestamp),
               (''verificationMethod'', JStr (issuerDid @ ''#key1'')),
               (''proofPurpose'', JStr ''assertionMethod''),
               (''signatureValue'', JStr mockSignature)])]
      in bindE (sha256_of_json vcObject) (\<lambda>vcDigest. Inr (vcObject, vcDigest)))"

text \<open>
  \<^verbatim>\<open>validateVcSignature\<close>: the guard uses optional chaining; past the guard the fields
  are read with plain member access, converted to strings by the template literal in the
  order \<^verbatim>\<open>cid\<close>, \<^verbatim>\<open>timestamp\<close>, \<^verbatim>\<open>issuerDid\<close>, \<^verbatim>\<open>batchId\<close>, and the recomputed
  signature is compared with \<^verbatim>\<open>===\<close>.
\<close>

definition guard_rejects :: "jv \<Rightarrow> bool" where
  "guard_rejects vcObject =
     (\<not> truthy (optMember (optMember vcObject ''proof'') ''signatureValue'') \<or>
      \<not> truthy (optMember (optMember vcObject ''proof'') ''created'') \<or>
      \<not> truthy (optMember vcObject ''issuer''))"

definition validateVcSignature :: "jv \<Rightarrow> error + bool" where
  "validateVcSignature vcObject =
     (if guard_rejects vcObject then Inr False
      else
        bindE (member vcObject ''issuer'') (\<lambda>issuerDid.
        bindE (member vcObject ''credentialSubject'') (\<lambda>subject1.
        bindE (member subject1 ''cid'') (\<lambda>cid.
        bindE (member vcObject ''credentialSubject'') (\<lambda>subject2.
        bindE (member subject2 ''batchId'') (\<lambda>batchId.
        bindE (member vcObject ''proof'') (\<lambda>proof1.
        bindE (member proof1 ''created'') (\<lambda>timestamp.
        bindE (toStringE cid) (\<lambda>cid_s.
        bindE (toStringE timestamp) (\<lambda>timestamp_s.
        bindE (toStringE issuerDid) (\<lambda>issuerDid_s.
        bindE (toStringE batchId) (\<lambda>batchId_s.
        let expectedMockSignature =
              sha256 (cid_s @ ''-'' @ timestamp_s @ ''-'' @ issuerDid_s @ ''-'' @ batchId_s
                      @ ''-secret-key'')
        in
        bindE (member vcObject ''proof'') (\<lambda>proof2.
        bindE (member proof2 ''signatureValue'') (\<lambda>signatureValue.
        Inr (signatureValue = JStr expectedMockSignature)))))))))))))))"

subsection \<open>The persisted state\<close>

text \<open>
  \<^verbatim>\<open>localStorage\<close> holds one JSON text per key. The state below holds the decoded
  value under each key; a key that was never written reads as the default the getters pass
  (\<^verbatim>\<open>[]\<close> or \<^verbatim>\<open>{}\<close>). A stored batch or
  claim is kept as the object handed to the writer (the JSON text leaves out its members
  that hold \<^verbatim>\<open>undefined\<close>). Of a farmer record the service reads \<^verbatim>\<open>id\<close> and
  \<^verbatim>\<open>name\<close> only.
\<close>

record farmer =
  farmer_id :: string
  farmer_name :: string

record code_entry =
  ce_cid :: string
  ce_vcDigest :: string
  ce_batchId :: string

record log_entry =
  le_index :: nat
  le_digest :: string
  le_previousHash :: "string option"
  le_timestamp :: string
  le_cid :: string

record store =
  ls_farmers :: "farmer list"
  ls_batches :: "jv list"
  ls_claims :: "jv list"
  ls_codes :: "string \<rightharpoonup> code_entry"
  ls_transparency_log :: "log_entry list"
  ls_draft_batch :: "string \<rightharpoonup> jv"

text \<open>
  \<^verbatim>\<open>setLocalStorageItem\<close> catches the error of a failed \<^verbatim>\<open>localStorage.setItem\<close> (a
  full quota, for instance), logs it and returns normally, with nothing stored. Whether the
  \<^verbatim>\<open>setItem\<close> of a call succeeds is the argument \<open>stored\<close> of every writer; \<open>put\<close> is
  the replacement of the value under the key.
\<close>

definition setLocalStorageItem :: "bool \<Rightarrow> (store \<Rightarrow> store) \<Rightarrow> store \<Rightarrow> store" where
  "setLocalStorageItem stored put s = (if stored then put s else s)"

definition getFarmerById :: "store \<Rightarrow> string \<Rightarrow> farmer option" where
  "getFarmerById s ident = find (\<lambda>f. farmer_id f = ident) (ls_farmers s)"

definition addBatch :: "bool \<Rightarrow> jv \<Rightarrow> store \<Rightarrow> store" where
  "addBatch stored batch s =
     (let batches = ls_batches s @ [batch]
      in setLocalStorageItem stored (\<lambda>t. t\<lparr>ls_batches := batches\<rparr>) s)"

definition addClaim :: "bool \<Rightarrow> jv \<Rightarrow> store \<Rightarrow> store" where
  "addClaim stored claim s =
     (let claims = ls_claims s @ [claim]
      in setLocalStorageItem stored (\<lambda>t. t\<lparr>ls_claims := claims\<rparr>) s)"

definition clearDraftBatch :: "string \<Rightarrow> store \<Rightarrow> store" where
  "clearDraftBatch farmerId s = s\<lparr>ls_draft_batch := (ls_draft_batch s)(farmerId := None)\<rparr>"

subsection \<open>Consumer codes\<close>

text \<open>
  The index is a plain object used as a dictionary, \<open>ls_codes\<close> being its own properties.
  \<^verbatim>\<open>codes[consumerCode]\<close> therefore also finds what the object inherits from
  \<^verbatim>\<open>Object.prototype\<close>, and the assignment \<^verbatim>\<open>codes["__proto__"] = {...}\<close> runs the
  inherited setter: it replaces the prototype of the in-memory object and creates no own
  property, so the text written back is the one that was read.
\<close>

datatype code_lookup =
    Undefined
  | Mapping code_entry
  | Inherited string

definition object_prototype_names :: "string list" where
  "object_prototype_names =
     [''__proto__'', ''constructor'', ''hasOwnProperty'', ''isPrototypeOf'',
      ''propertyIsEnumerable'', ''toLocaleString'', ''toString'', ''valueOf'',
      ''__defineGetter__'', ''__defineSetter__'', ''__lookupGetter__'', ''__lookupSetter__'']"

definition getCodeMapping :: "store \<Rightarrow> string \<Rightarrow> code_lookup" where
  "getCodeMapping s consumerCode =
     (case ls_codes s consumerCode of
        Some entry \<Rightarrow> Mapping entry
      | None \<Rightarrow>
          if consumerCode \<in> set object_prototype_names then Inherited consumerCode
          else Undefined)"

fun lookup_truthy :: "code_lookup \<Rightarrow> bool" where
  "lookup_truthy Undefined = False"
| "lookup_truthy (Mapping entry) = True"
| "lookup_truthy (Inherited name) = True"

definition addCodeMapping ::
  "bool \<Rightarrow> string \<Rightarrow> string \<Rightarrow> string \<Rightarrow> string \<Rightarrow> store \<Rightarrow> store" where
  "addCodeMapping stored consumerCode cid vcDigest batchId s =
     (let codes = ls_codes s;
          codes' =
            (if consumerCode = ''__proto__'' \<and> codes consumerCode = None then codes
             else codes(consumerCode \<mapsto>
                    \<lparr>ce_cid = cid, ce_vcDigest = vcDigest, ce_batchId = batchId\<rparr>))
      in setLocalStorageItem stored (\<lambda>t. t\<lparr>ls_codes := codes'\<rparr>) s)"

subsection \<open>Transparency log\<close>

definition getTransparencyLog :: "store \<Rightarrow> log_entry list" where
  "getTransparencyLog s = ls_transparency_log s"

text \<open>\<open>now\<close> is the value of \<^verbatim>\<open>new Date().toISOString()\<close> read by the call.\<close>

definition appendToTransparencyLog ::
  "bool \<Rightarrow> string \<Rightarrow> string \<Rightarrow> string \<Rightarrow> store \<Rightarrow> nat \<times> store" where
  "appendToTransparencyLog stored now vcDigest cid s =
     (let log = getTransparencyLog s;
          previousHash =
            (if length log > 0 then Some (le_digest (log ! (length log - 1))) else None);
          newEntry = \<lparr>le_index = length log, le_digest = vcDigest,
                      le_previousHash = previousHash, le_timestamp = now, le_cid = cid\<rparr>;
          log' = log @ [newEntry]
      in (le_index newEntry,
          setLocalStorageItem stored (\<lambda>t. t\<lparr>ls_transparency_log := log'\<rparr>) s))"

record log_check =
  lc_exists :: bool
  lc_consistent :: bool

definition checkTransparencyLog :: "store \<Rightarrow> string \<Rightarrow> string \<Rightarrow> log_check" where
  "checkTransparencyLog s vcDigest expectedCid =
     (case find (\<lambda>e. le_digest e = vcDigest) (getTransparencyLog s) of
        None \<Rightarrow> \<lparr>lc_exists = False, lc_consistent = False\<rparr>
      | Some entry \<Rightarrow>
          if le_cid entry \<noteq> expectedCid then \<lparr>lc_exists = True, lc_consistent = False\<rparr>
          else \<lparr>lc_exists = True, lc_consistent = True\<rparr>)"


section \<open>The submission workflow\<close>

text \<open>
  \<^verbatim>\<open>handleFinalSubmit\<close> of the farmer input page. What the handler reads from its
  surroundings is collected in \<open>submit_env\<close>: the calendar date of \<^verbatim>\<open>new Date()\<close>, the
  integer \<^verbatim>\<open>Math.floor(1000 + Math.random() * 9000)\<close> of each attempt (from 1000 to
  9999), the two UUIDs, and the clock readings in the order of the text. Any call inside
  the \<^verbatim>\<open>try\<close> block may throw, for instance on a stored value of the wrong shape;
  \<open>throws\<close> names the calls that do in a run, with the message of the error, and the
  \<^verbatim>\<open>catch\<close> clause turns every error into the page's general error. \<open>setItem_ok\<close>
  says for each writing call whether its \<^verbatim>\<open>localStorage.setItem\<close> succeeds.
\<close>

datatype step =
    Step_computeCid
  | Step_issueVerifiableCredential
  | Step_appendToTransparencyLog
  | Step_addBatch
  | Step_addClaim nat
  | Step_addCodeMapping

record submit_env =
  date_year :: nat
  date_month :: nat
  date_day :: nat
  random4 :: "nat \<Rightarrow> nat"
  batch_uuid :: string
  vc_uuid :: string
  now_harvest :: string
  now_created :: string
  now_updated :: string
  now_claim_created :: "nat \<Rightarrow> string"
  now_claim_updated :: "nat \<Rightarrow> string"
  now_issue :: string
  now_log :: string
  throws :: "step \<Rightarrow> string option"
  setItem_ok :: "step \<Rightarrow> bool"

subsection \<open>Step 1: the consumer code\<close>

definition digit_char :: "nat \<Rightarrow> char" where
  "digit_char d = ''0123456789'' ! d"

function dec :: "nat \<Rightarrow> string" where
  "dec n = (if n < 10 then [digit_char n] else dec (n div 10) @ [digit_char (n mod 10)])"
  by pat_completeness auto
termination
  by (relation "measure id") auto

definition padStart2 :: "string \<Rightarrow> string" where
  "padStart2 t = replicate (2 - length t) (CHR ''0'') @ t"

definition slice_last2 :: "string \<Rightarrow> string" where
  "slice_last2 t = drop (length t - 2) t"

definition tempCode :: "submit_env \<Rightarrow> nat \<Rightarrow> string" where
  "tempCode env attempts =
     (let year = slice_last2 (dec (date_year env));
          month = padStart2 (dec (date_month env + 1));
          day = padStart2 (dec (date_day env));
          rand = dec (random4 env attempts)
      in ''AGRITRUST-'' @ year @ month @ day @ ''-'' @ rand)"

text \<open>
  The \<^verbatim>\<open>while (attempts < 100)\<close> loop; the result is the value of \<^verbatim>\<open>consumerCode\<close>
  after it, the empty string when every attempt collided.
\<close>

function generateCode :: "submit_env \<Rightarrow> store \<Rightarrow> nat \<Rightarrow> string" where
  "generateCode env s attempts =
     (if attempts < 100 then
        (if \<not> lookup_truthy (getCodeMapping s (tempCode env attempts))
         then tempCode env attempts
         else generateCode env s (attempts + 1))
      else [])"
  by pat_completeness auto
termination
  by (relation "measure (\<lambda>(env, s, attempts). 100 - attempts)") auto

subsection \<open>Steps 2 and 3: the final batch and claims\<close>

fun setMember :: "(string \<times> jv) list \<Rightarrow> string \<Rightarrow> jv \<Rightarrow> (string \<times> jv) list" where
  "setMember [] k v = [(k, v)]"
| "setMember (kv # kvs) k v =
     (if fst kv = k then (k, v) # kvs else kv # setMember kvs k v)"

definition finalBatch_of ::
  "submit_env \<Rightarrow> string \<Rightarrow> farmer \<Rightarrow> (string \<times> jv) list \<Rightarrow> string \<Rightarrow> (string \<times> jv) list" where
  "finalBatch_of env userId frm batchData consumerCode =
     (let bd = JObj batchData; loc = getProp bd ''location'' in
      [(''id'', JStr (batch_uuid env)),
       (''farmerId'', JStr userId),
       (''farmerName'', JStr (farmer_name frm)),
       (''location'', JObj [
          (''village'', jsOr (optMember loc ''village'') (JStr [])),
          (''district'', jsOr (optMember loc ''district'') (JStr [])),
          (''state'', jsOr (optMember loc ''state'') (JStr [])),
          (''gps'', jsOr (optMember loc ''gps'') JUndefined)]),
       (''productName'', jsOr (getProp bd ''productName'') (JStr ''Unknown Product'')),
       (''variety'', jsOr (getProp bd ''variety'') (JStr ''Unknown Variety'')),
       (''harvestDate'', jsOr (getProp bd ''harvestDate'')
          (JStr (takeWhile (\<lambda>c. c \<noteq> CHR ''T'') (now_harvest env)))),
       (''soilTypeTexture'', jsOr (getProp bd ''soilTypeTexture'') (JStr ''Not specified'')),
       (''nitrogenLevel'', jsOr (getProp bd ''nitrogenLevel'') (JNum ''0'')),
       (''phosphorusLevel'', jsOr (getProp bd ''phosphorusLevel'') (JNum ''0'')),
       (''potassiumLevel'', jsOr (getProp bd ''potassiumLevel'') (JNum ''0'')),
       (''micronutrients'', jsOr (getProp bd ''micronutrients'') (JStr ''Not specified'')),
       (''soilPh'', jsOr (getProp bd ''soilPh'') (JNum ''7'')),
       (''humidity'', jsOr (getProp bd ''humidity'') (JNum ''0'')),
       (''temperature'', jsOr (getProp bd ''temperature'') (JNum ''0'')),
       (''inputsUsed'', jsOr (getProp bd ''inputsUsed'') (JArr [])),
       (''certifications'', jsOr (getProp bd ''certifications'') (JArr [])),
       (''lotSize'', jsOr (getProp bd ''lotSize'') (JStr ''Not specified'')),
       (''processingSteps'', getProp bd ''processingSteps''),
       (''storageTransportNotes'', getProp bd ''storageTransportNotes''),
       (''consumerCode'', JStr consumerCode),
       (''cid'', JStr []),
       (''vcDigest'', JStr []),
       (''createdAt'', JStr (now_created env)),
       (''updatedAt'', JStr (now_updated env))])"

text \<open>
  \<^verbatim>\<open>{ ...claim, batchId, createdAt, updatedAt }\<close>: a key the claim already has keeps
  its place and takes the new value, a new key goes to the end.
\<close>

definition finalClaim_of :: "submit_env \<Rightarrow> string \<Rightarrow> nat \<Rightarrow> (string \<times> jv) list \<Rightarrow> jv" where
  "finalClaim_of env finalBatchId i claim =
     JObj (setMember
       (setMember
         (setMember claim ''batchId'' (JStr finalBatchId))
         ''createdAt'' (jsOr (getProp (JObj claim) ''createdAt'') (JStr (now_claim_created env i))))
       ''updatedAt'' (JStr (now_claim_updated env i)))"

fun finalClaims_of ::
  "submit_env \<Rightarrow> string \<Rightarrow> nat \<Rightarrow> (string \<times> jv) list list \<Rightarrow> jv list" where
  "finalClaims_of env finalBatchId i [] = []"
| "finalClaims_of env finalBatchId i (claim # claims) =
     finalClaim_of env finalBatchId i claim # finalClaims_of env finalBatchId (Suc i) claims"

subsection \<open>The \<^verbatim>\<open>try\<close> block\<close>

text \<open>
  A computation over the store that may throw: the store it leaves behind is returned in
  either case, since a write made before the error stays.
\<close>

type_synonym 'a action = "store \<Rightarrow> (error + 'a) \<times> store"

definition bindM :: "'a action \<Rightarrow> ('a \<Rightarrow> 'b action) \<Rightarrow> 'b action" where
  "bindM m f s = (case m s of (Inl e, s') \<Rightarrow> (Inl e, s') | (Inr x, s') \<Rightarrow> f x s')"

definition pureM :: "'a \<Rightarrow> 'a action" where
  "pureM x s = (Inr x, s)"

definition throwM :: "error \<Rightarrow> 'a action" where
  "throwM e s = (Inl e, s)"

definition liftE :: "error + 'a \<Rightarrow> 'a action" where
  "liftE r s = (r, s)"

definition writeM :: "(store \<Rightarrow> store) \<Rightarrow> unit action" where
  "writeM f s = (Inr (), f s)"

definition call :: "submit_env \<Rightarrow> step \<Rightarrow> 'a action \<Rightarrow> 'a action" where
  "call env st m = (case throws env st of Some msg \<Rightarrow> throwM (Error msg) | None \<Rightarrow> m)"

fun addClaims :: "submit_env \<Rightarrow> nat \<Rightarrow> jv list \<Rightarrow> unit action" where
  "addClaims env i [] = pureM ()"
| "addClaims env i (claim # claims) =
     bindM (call env (Step_addClaim i)
              (writeM (addClaim (setItem_ok env (Step_addClaim i)) claim)))
       (\<lambda>_. addClaims env (Suc i) claims)"

definition submit_try ::
  "submit_env \<Rightarrow> string \<Rightarrow> (string \<times> jv) list \<Rightarrow> (string \<times> jv) list list \<Rightarrow> string action" where
  "submit_try env userId batchData claims s0 =
     (let consumerCode = generateCode env s0 0 in
      if consumerCode = [] then
        throwM (Error ''Failed to generate a unique consumer code after multiple attempts.'') s0
      else
        case getFarmerById s0 userId of
          None \<Rightarrow> throwM (Error ''Farmer details missing for submission.'') s0
        | Some frm \<Rightarrow>
            (let finalBatchId = batch_uuid env;
                 finalBatch = finalBatch_of env userId frm batchData consumerCode;
                 finalClaims = finalClaims_of env finalBatchId 0 claims;
                 combinedContentForCid =
                   JObj [(''batch'', JObj finalBatch), (''claims'', JArr finalClaims)]
             in
             bindM (call env Step_computeCid (liftE (computeCid combinedContentForCid))) (\<lambda>cid.
             bindM (call env Step_issueVerifiableCredential
                      (liftE (issueVerifiableCredential (now_issue env) (vc_uuid env)
                                cid userId finalBatchId))) (\<lambda>vc.
             let vcDigest = snd vc;
                 finalBatch' = setMember (setMember finalBatch ''cid'' (JStr cid))
                                 ''vcDigest'' (JStr vcDigest)
             in
             bindM (call env Step_appendToTransparencyLog
                      (writeM (\<lambda>s. snd (appendToTransparencyLog
                                         (setItem_ok env Step_appendToTransparencyLog)
                                         (now_log env) vcDigest cid s))))
               (\<lambda>_.
             bindM (call env Step_addBatch
                      (writeM (addBatch (setItem_ok env Step_addBatch) (JObj finalBatch'))))
               (\<lambda>_.
             bindM (addClaims env 0 finalClaims) (\<lambda>_.
             bindM (call env Step_addCodeMapping
                      (writeM (addCodeMapping (setItem_ok env Step_addCodeMapping)
                                 consumerCode cid vcDigest finalBatchId))) (\<lambda>_.
             bindM (writeM (clearDraftBatch userId)) (\<lambda>_.
             pureM consumerCode))))))) s0))"

text \<open>
  The handler: the two early returns, then the \<^verbatim>\<open>try\<close> block with its \<^verbatim>\<open>catch\<close>.
  \<open>inputsValid\<close> is the result of \<^verbatim>\<open>validateAllInputs()\<close>, \<open>userId\<close> the identifier of
  the session (\<open>None\<close> for \<^verbatim>\<open>null\<close>). The outcome is the message the page shows.
\<close>

datatype outcome =
    SubmissionSuccess string
  | GeneralError string

fun error_message :: "error \<Rightarrow> string" where
  "error_message (Error msg) = msg"
| "error_message (TypeError_read k) =
     ''Cannot read properties of undefined (reading '' @ k @ '')''"
| "error_message TypeError_convert = ''Cannot convert object to primitive value''"

definition handleFinalSubmit ::
  "submit_env \<Rightarrow> bool \<Rightarrow> string option \<Rightarrow> (string \<times> jv) list \<Rightarrow> (string \<times> jv) list list
     \<Rightarrow> store \<Rightarrow> outcome \<times> store" where
  "handleFinalSubmit env inputsValid userId batchData claims s =
     (if \<not> inputsValid then
        (GeneralError ''Please correct the errors in the form before submitting.'', s)
      else
        case userId of
          None \<Rightarrow> (GeneralError ''Farmer ID not found. Please log in.'', s)
        | Some uid \<Rightarrow>
            if uid = [] then (GeneralError ''Farmer ID not found. Please log in.'', s)
            else
              (case submit_try env uid batchData claims s of
                 (Inr consumerCode, s') \<Rightarrow>
                   (SubmissionSuccess
                      (''Batch submitted successfully! Consumer Code: '' @ consumerCode), s')
               | (Inl err, s') \<Rightarrow>
                   (GeneralError
                      (if error_message err = [] then ''Failed to submit batch data.''
                       else error_message err), s')))"


section \<open>Notions used in the statements\<close>

text \<open>A run of sequential appends, each with the outcome of its write and its clock
  reading; the result lists the returned indices.\<close>

fun appendAll ::
  "(bool \<times> string \<times> string \<times> string) list \<Rightarrow> store \<Rightarrow> nat list \<times> store" where
  "appendAll [] s = ([], s)"
| "appendAll ((stored, now, vcDigest, cid) # args) s =
     (case appendToTransparencyLog stored now vcDigest cid s of
        (n, s') \<Rightarrow> (case appendAll args s' of (ns, s'') \<Rightarrow> (n # ns, s'')))"

definition entry_of :: "log_entry list \<Rightarrow> string \<times> string \<times> string \<Rightarrow> log_entry" where
  "entry_of log arg =
     \<lparr>le_index = length log,
      le_digest = fst (snd arg),
      le_previousHash = (if log = [] then None else Some (le_digest (last log))),
      le_timestamp = fst arg,
      le_cid = snd (snd arg)\<rparr>"

definition chained :: "log_entry list \<Rightarrow> bool" where
  "chained log \<longleftrightarrow>
     (\<forall>i<length log. le_index (log ! i) = i \<and>
        le_previousHash (log ! i) = (if i = 0 then None else Some (le_digest (log ! (i - 1)))))"

text \<open>The four values the template literal of \<^verbatim>\<open>validateVcSignature\<close> converts.\<close>

definition template_fields :: "jv \<Rightarrow> jv list" where
  "template_fields vcObject =
     [getProp (getProp vcObject ''credentialSubject'') ''cid'',
      getProp (getProp vcObject ''proof'') ''created'',
      getProp vcObject ''issuer'',
      getProp (getProp vcObject ''credentialSubject'') ''batchId'']"

text \<open>Concrete states and inputs for the examples.\<close>

definition store_empty :: store where
  "store_empty = \<lparr>ls_farmers = [], ls_batches = [], ls_claims = [], ls_codes = Map.empty,
                   ls_transparency_log = [], ls_draft_batch = Map.empty\<rparr>"

definition store_taken :: store where
  "store_taken = store_empty\<lparr>ls_codes :=
     [''AGRITRUST-261102-1234'' \<mapsto> \<lparr>ce_cid = ''c'', ce_vcDigest = ''d'', ce_batchId = ''b''\<rparr>]\<rparr>"

definition store_dup :: store where
  "store_dup = store_empty\<lparr>ls_transparency_log :=
     [\<lparr>le_index = 0, le_digest = ''d'', le_previousHash = None,
       le_timestamp = ''t0'', le_cid = ''c0''\<rparr>,
      \<lparr>le_index = 1, le_digest = ''d'', le_previousHash = Some ''d'',
       le_timestamp = ''t1'', le_cid = ''c1''\<rparr>]\<rparr>"

definition env_demo :: submit_env where
  "env_demo = \<lparr>date_year = 2026, date_month = 10, date_day = 2, random4 = (\<lambda>i. 1234),
     batch_uuid = ''b-uuid'', vc_uuid = ''v-uuid'', now_harvest = ''2026-11-02T10:00:00.000Z'',
     now_created = ''2026-11-02T10:00:00.001Z'', now_updated = ''2026-11-02T10:00:00.002Z'',
     now_claim_created = (\<lambda>i. ''2026-11-02T10:00:00.003Z''),
     now_claim_updated = (\<lambda>i. ''2026-11-02T10:00:00.004Z''),
     now_issue = ''2026-11-02T10:00:00.005Z'', now_log = ''2026-11-02T10:00:00.006Z'',
     throws = (\<lambda>st. None), setItem_ok = (\<lambda>st. True)\<rparr>"

definition payload_ab :: jv where
  "payload_ab = JObj [(''a'', JNum ''1''), (''b'', JNum ''2'')]"

definition payload_ba :: jv where
  "payload_ba = JObj [(''b'', JNum ''2''), (''a'', JNum ''1'')]"

definition vc_demo :: jv where
  "vc_demo = JObj [
      (''issuer'', JStr ''did:agritrust:f''),
      (''credentialSubject'', JObj [(''cid'', JStr ''c''), (''batchId'', JStr ''b'')]),
      (''proof'', JObj [(''created'', JStr ''t''), (''signatureValue'', JStr ''s'')])]"

section \<open>Properties\<close>

declare dec.simps [simp del]
declare generateCode.simps [simp del]
declare process.simps [simp del]

lemma bindE_Inr [simp]: "bindE (Inr x) f = f x"
  by (simp add: bindE_def)

lemma bindE_Inl [simp]: "bindE (Inl e) f = Inl e"
  by (simp add: bindE_def)

lemma length_hex_state: "length (hex_state st) = 64"
  by (cases st rule: hex_state.cases) (simp add: hex32_def)

lemma length_sha256: "length (sha256 s) = 64"
  by (simp add: sha256_def length_hex_state)

lemma sha256_nonempty [simp]: "sha256 s \<noteq> []"
  using length_sha256 [of s] by auto

subsection \<open>Content digests\<close>

lemma replicate_numeral: "replicate (numeral k) x = x # replicate (pred_numeral k) x"
  by (simp add: numeral_eq_Suc)

lemma process_Nil: "process st [] = st"
  by (simp add: process.simps)

lemma process_Cons: "process st (w # ws) = process (compress st (take 16 (w # ws))) (drop 16 (w # ws))"
  by (subst process.simps) simp

lemmas sha_round_defs = add32_def rotr_def shr_def not32_def ssig0_def ssig1_def bsig0_def
  bsig1_def ch_def maj_def sched_word_def

text \<open>The hash model on the standard test vector.\<close>

lemma words_abc:
  "be32 (pad [97, 98, 99]) =
     [1633837952, 0, 0, 0, 0, 0, 0, 0, 0, 0, 0, 0, 0, 0, 0, 24]"
  by (simp add: pad_def len_bytes_def replicate_numeral)

lemma compress_abc:
  "compress H0 [1633837952, 0, 0, 0, 0, 0, 0, 0, 0, 0, 0, 0, 0, 0, 0, 24] =
     (3128432319, 2399260650, 1094795486, 1571693091, 2953011619, 2518121116, 3021012833,
     4060091821)"
  by (simp add: compress_def K256_def H0_def sha_round_defs)

lemma sha256_abc:
  "sha256 ''abc'' = ''ba7816bf8f01cfea414140de5dae2223b00361a396177a9cb410ff61f20015ad''"
  by (simp add: sha256_def words_abc process_Cons process_Nil compress_abc hex32_def hexdigit_def)

text \<open>The two payloads of the example: their serializations and digests.\<close>

lemma stringify_ab: "JSON_stringify payload_ab = Some [CHR ''{'', CHR 0x22, CHR ''a'', CHR 0x22, CHR '':'', CHR ''1'', CHR '','', CHR 0x22, CHR ''b'', CHR 0x22, CHR '':'', CHR ''2'', CHR ''}'']"
  by (simp add: payload_ab_def quote_def escape_char_def dquote_def backslash_def)

lemma words_ab:
  "be32 (pad [123, 34, 97, 34, 58, 49, 44, 34, 98, 34, 58, 50, 125]) =
     [2065850658, 976301090, 1646410290, 2105540608, 0, 0, 0, 0, 0, 0, 0, 0, 0, 0, 0, 104]"
  by (simp add: pad_def len_bytes_def replicate_numeral)

lemma compress_ab:
  "compress H0 [2065850658, 976301090, 1646410290, 2105540608, 0, 0, 0, 0, 0, 0, 0, 0, 0, 0, 0, 104] =
     (1126534399, 2017453827, 1837777667, 1065552607, 3322855479, 941912916, 2328314552,
     2284398455)"
  by (simp add: compress_def K256_def H0_def sha_round_defs)

lemma sha256_ab:
  "sha256 [CHR ''{'', CHR 0x22, CHR ''a'', CHR 0x22, CHR '':'', CHR ''1'', CHR '','', CHR 0x22, CHR ''b'', CHR 0x22, CHR '':'', CHR ''2'', CHR ''}''] =
     ''43258cff783fe7036d8a43033f830adfc60ec037382473548ac742b888292777''"
  by (simp add: sha256_def words_ab process_Cons process_Nil compress_ab hex32_def hexdigit_def)

lemma stringify_ba: "JSON_stringify payload_ba = Some [CHR ''{'', CHR 0x22, CHR ''b'', CHR 0x22, CHR '':'', CHR ''2'', CHR '','', CHR 0x22, CHR ''a'', CHR 0x22, CHR '':'', CHR ''1'', CHR ''}'']"
  by (simp add: payload_ba_def quote_def escape_char_def dquote_def backslash_def)

lemma words_ba:
  "be32 (pad [123, 34, 98, 34, 58, 50, 44, 34, 97, 34, 58, 49, 125]) =
     [2065850914, 976366626, 1629633073, 2105540608, 0, 0, 0, 0, 0, 0, 0, 0, 0, 0, 0, 104]"
  by (simp add: pad_def len_bytes_def replicate_numeral)

lemma compress_ba:
  "compress H0 [2065850914, 976366626, 1629633073, 2105540608, 0, 0, 0, 0, 0, 0, 0, 0, 0, 0, 0, 104] =
     (1068979283, 576484138, 1991739806, 2718526938, 341121180, 2306961977, 1931576055,
     1072013471)"
  by (simp add: compress_def K256_def H0_def sha_round_defs)

lemma sha256_ba:
  "sha256 [CHR ''{'', CHR 0x22, CHR ''b'', CHR 0x22, CHR '':'', CHR ''2'', CHR '','', CHR 0x22, CHR ''a'', CHR 0x22, CHR '':'', CHR ''1'', CHR ''}''] =
     ''3fb75453225c732a76b7899ea2096dda1455189c89817239732182f73fe5a09f''"
  by (simp add: sha256_def words_ba process_Cons process_Nil compress_ba hex32_def hexdigit_def)

text \<open>
  C5 as stated fails: the payloads \<^verbatim>\<open>{a: 1, b: 2}\<close> and \<^verbatim>\<open>{b: 2, a: 1}\<close> hold the same
  fields with the same values in a different key order, and \<^verbatim>\<open>computeCid\<close> returns
  different digests for them.
\<close>

theorem computeCid_key_order_counterexample: "computeCid payload_ab \<noteq> computeCid payload_ba"
  by (simp add: computeCid_def sha256_of_json_def stringify_ab stringify_ba sha256_ab sha256_ba)

lemma hexdigit_inj:
  assumes "n < 16" "m < 16" "hexdigit n = hexdigit m"
  shows "n = m"
proof -
  have d: "distinct ''0123456789abcdef''" by simp
  have l: "length ''0123456789abcdef'' = 16" by simp
  from assms show ?thesis
    unfolding hexdigit_def using nth_eq_iff_index_eq [OF d] l by metis
qed

lemma hex_pair_inj:
  assumes "(of_char c :: nat) < 32" "(of_char d :: nat) < 32"
    and "hexdigit (of_char c div 16) = hexdigit (of_char d div 16)"
    and "hexdigit (of_char c mod 16) = hexdigit (of_char d mod 16)"
  shows "c = d"
proof -
  from assms(1,2) have "(of_char c :: nat) div 16 < 16" "(of_char d :: nat) div 16 < 16"
    by simp_all
  with assms(3) have q: "(of_char c :: nat) div 16 = of_char d div 16"
    by (rule hexdigit_inj [rotated 2])
  have "(of_char c :: nat) mod 16 < 16" "(of_char d :: nat) mod 16 < 16"
    by simp_all
  with assms(4) have r: "(of_char c :: nat) mod 16 = of_char d mod 16"
    by (rule hexdigit_inj [rotated 2])
  from q r have "(of_char c :: nat) = of_char d"
    by (metis div_mult_mod_eq)
  then show ?thesis by simp
qed

lemma escape_char_prefix:
  assumes "escape_char c @ xs = escape_char d @ ys"
  shows "c = d"
  using assms unfolding escape_char_def dquote_def backslash_def
  by (auto split: if_splits dest: hex_pair_inj)

lemma escape_char_not_dquote: "\<exists>x xs. escape_char c = x # xs \<and> x \<noteq> dquote"
  by (simp add: escape_char_def dquote_def backslash_def)

lemma escaped_prefix:
  "concat (map escape_char k1) @ dquote # r1 = concat (map escape_char k2) @ dquote # r2
     \<Longrightarrow> k1 = k2"
proof (induction k1 arbitrary: k2)
  case Nil
  show ?case
  proof (cases k2)
    case Nil
    then show ?thesis by simp
  next
    case (Cons d ds)
    obtain x xs where "escape_char d = x # xs" "x \<noteq> dquote"
      using escape_char_not_dquote by blast
    with Nil Cons show ?thesis by simp
  qed
next
  case (Cons c cs)
  show ?case
  proof (cases k2)
    case Nil
    obtain x xs where "escape_char c = x # xs" "x \<noteq> dquote"
      using escape_char_not_dquote by blast
    with Cons.prems Nil show ?thesis by simp
  next
    case (Cons d ds)
    with Cons.prems have e: "escape_char c @ (concat (map escape_char cs) @ dquote # r1) =
        escape_char d @ (concat (map escape_char ds) @ dquote # r2)"
      by simp
    then have cd: "c = d" by (rule escape_char_prefix)
    with e have "concat (map escape_char cs) @ dquote # r1 = concat (map escape_char ds) @ dquote # r2"
      by simp
    then have "cs = ds" by (rule Cons.IH)
    with cd Cons show ?thesis by simp
  qed
qed

lemma quote_prefix: "quote k1 @ r1 = quote k2 @ r2 \<Longrightarrow> k1 = k2"
  using escaped_prefix [of k1 r1 k2 r2] by (simp add: quote_def)

lemma join_Cons: "\<exists>t. join sep (x # xs) = x @ t"
  by (cases xs) auto

lemma JSON_stringify_defined: "v \<noteq> JUndefined \<Longrightarrow> \<exists>t. JSON_stringify v = Some t"
  by (cases v) simp_all

lemma stringify_first_key:
  assumes "v1 \<noteq> JUndefined" "v2 \<noteq> JUndefined"
    and "JSON_stringify (JObj ((k1, v1) # m1)) = JSON_stringify (JObj ((k2, v2) # m2))"
  shows "k1 = k2"
proof -
  obtain t1 t2 where t: "JSON_stringify v1 = Some t1" "JSON_stringify v2 = Some t2"
    using assms(1,2) JSON_stringify_defined by blast
  obtain u1 where u1: "join '','' ((quote k1 @ '':'' @ t1) # stringify_members m1) = (quote k1 @ '':'' @ t1) @ u1"
    using join_Cons by blast
  obtain u2 where u2: "join '','' ((quote k2 @ '':'' @ t2) # stringify_members m2) = (quote k2 @ '':'' @ t2) @ u2"
    using join_Cons by blast
  from assms(3) t u1 u2 have "quote k1 @ ('':'' @ t1 @ u1 @ ''}'') = quote k2 @ ('':'' @ t2 @ u2 @ ''}'')"
    by simp
  then show ?thesis by (rule quote_prefix)
qed

text \<open>
  C5, as amended. \<^verbatim>\<open>computeCid\<close> returns the hash of the \<^verbatim>\<open>JSON.stringify\<close> text
  of the payload, so payloads with the same text get the same digest. The text lists the
  members of an object in the object's own key order and leaves out the members whose value
  is \<^verbatim>\<open>undefined\<close>: two objects whose first members have different keys and both hold a
  value other than \<^verbatim>\<open>undefined\<close> are hashed over different texts, whatever else they hold.
\<close>

theorem computeCid_key_order:
  "(\<forall>p t. JSON_stringify p = Some t \<longrightarrow> computeCid p = Inr (sha256 t)) \<and>
   (\<forall>p q. JSON_stringify p = JSON_stringify q \<longrightarrow> computeCid p = computeCid q) \<and>
   (k1 \<noteq> k2 \<and> v1 \<noteq> JUndefined \<and> v2 \<noteq> JUndefined \<longrightarrow>
      (\<exists>t1 t2.
         JSON_stringify (JObj ((k1, v1) # m1)) = Some t1 \<and>
         JSON_stringify (JObj ((k2, v2) # m2)) = Some t2 \<and>
         t1 \<noteq> t2 \<and>
         computeCid (JObj ((k1, v1) # m1)) = Inr (sha256 t1) \<and>
         computeCid (JObj ((k2, v2) # m2)) = Inr (sha256 t2)))"
proof (intro conjI allI impI)
  fix p t assume "JSON_stringify p = Some t"
  then show "computeCid p = Inr (sha256 t)"
    by (simp add: computeCid_def sha256_of_json_def)
next
  fix p q assume "JSON_stringify p = JSON_stringify q"
  then show "computeCid p = computeCid q"
    by (simp add: computeCid_def sha256_of_json_def)
next
  assume a: "k1 \<noteq> k2 \<and> v1 \<noteq> JUndefined \<and> v2 \<noteq> JUndefined"
  obtain t1 where t1: "JSON_stringify (JObj ((k1, v1) # m1)) = Some t1" by simp
  obtain t2 where t2: "JSON_stringify (JObj ((k2, v2) # m2)) = Some t2" by simp
  have "t1 \<noteq> t2"
  proof
    assume "t1 = t2"
    with t1 t2 have "JSON_stringify (JObj ((k1, v1) # m1)) = JSON_stringify (JObj ((k2, v2) # m2))"
      by simp
    with a have "k1 = k2" by (intro stringify_first_key [of v1 v2 k1 m1 k2 m2]) simp_all
    with a show False by simp
  qed
  with t1 t2 show "\<exists>t1 t2.
         JSON_stringify (JObj ((k1, v1) # m1)) = Some t1 \<and>
         JSON_stringify (JObj ((k2, v2) # m2)) = Some t2 \<and>
         t1 \<noteq> t2 \<and>
         computeCid (JObj ((k1, v1) # m1)) = Inr (sha256 t1) \<and>
         computeCid (JObj ((k2, v2) # m2)) = Inr (sha256 t2)"
    by (simp add: computeCid_def sha256_of_json_def)
qed

text \<open>C5 at the two payloads of the example, and at a payload with an \<^verbatim>\<open>undefined\<close>
  member, which has the text and the digest of the payload without it.\<close>

theorem computeCid_key_order_witness:
  "''a'' \<noteq> ''b'' \<and> JNum ''1'' \<noteq> JUndefined \<and> JNum ''2'' \<noteq> JUndefined \<and>
   (\<exists>t1 t2.
      JSON_stringify payload_ab = Some t1 \<and> JSON_stringify payload_ba = Some t2 \<and> t1 \<noteq> t2 \<and>
      computeCid payload_ab = Inr (sha256 t1) \<and> computeCid payload_ba = Inr (sha256 t2)) \<and>
   JSON_stringify (JObj [(''a'', JUndefined), (''b'', JNum ''1'')]) =
     JSON_stringify (JObj [(''b'', JNum ''1'')]) \<and>
   computeCid (JObj [(''a'', JUndefined), (''b'', JNum ''1'')]) =
     computeCid (JObj [(''b'', JNum ''1'')])"
proof -
  note t = computeCid_key_order [of "''a''" "''b''" "JNum ''1''" "JNum ''2''"
      "[(''b'', JNum ''2'')]" "[(''a'', JNum ''1'')]"]
  have e: "JSON_stringify (JObj [(''a'', JUndefined), (''b'', JNum ''1'')]) =
     JSON_stringify (JObj [(''b'', JNum ''1'')])"
    by simp
  from t have "\<exists>t1 t2.
      JSON_stringify payload_ab = Some t1 \<and> JSON_stringify payload_ba = Some t2 \<and> t1 \<noteq> t2 \<and>
      computeCid payload_ab = Inr (sha256 t1) \<and> computeCid payload_ba = Inr (sha256 t2)"
    by (simp add: payload_ab_def payload_ba_def)
  moreover from t e have "computeCid (JObj [(''a'', JUndefined), (''b'', JNum ''1'')]) =
     computeCid (JObj [(''b'', JNum ''1'')])"
    by blast
  ultimately show ?thesis using e by simp
qed

subsection \<open>Credentials\<close>

text \<open>
  C1. Round trip: for every content digest, farmer identifier, batch identifier and UUID,
  and for every timestamp captured at issuance (an ISO timestamp is never the empty
  string), \<^verbatim>\<open>issueVerifiableCredential\<close> returns a credential on which
  \<^verbatim>\<open>validateVcSignature\<close> returns true.
\<close>

theorem issue_then_validate:
  assumes "now \<noteq> []"
  shows "\<exists>vcObject vcDigest.
           issueVerifiableCredential now uuid cid farmerId batchId = Inr (vcObject, vcDigest) \<and>
           validateVcSignature vcObject = Inr True"
  using assms
  by (simp add: issueVerifiableCredential_def sha256_of_json_def Let_def validateVcSignature_def
      guard_rejects_def optMember_def member_def nullish_def toStringE_def)

text \<open>C1 at a concrete issuance.\<close>

theorem issue_then_validate_witness:
  "''2026-11-02T10:00:00.000Z'' \<noteq> [] \<and>
   (\<exists>vcObject vcDigest.
      issueVerifiableCredential ''2026-11-02T10:00:00.000Z'' ''u'' ''c'' ''f'' ''b'' = Inr (vcObject, vcDigest) \<and>
      validateVcSignature vcObject = Inr True)"
  using issue_then_validate [of "''2026-11-02T10:00:00.000Z''" "''u''" "''c''" "''f''" "''b''"] by simp

text \<open>
  C3 as stated fails: with the same inputs and the same timestamp, two issuances that draw
  different UUIDs return different credential objects.
\<close>

theorem issue_uuid_counterexample:
  "map_sum id fst (issueVerifiableCredential ''2026-11-02T10:00:00.000Z'' ''u1'' ''c'' ''f'' ''b'') \<noteq>
   map_sum id fst (issueVerifiableCredential ''2026-11-02T10:00:00.000Z'' ''u2'' ''c'' ''f'' ''b'')"
  by (simp add: issueVerifiableCredential_def sha256_of_json_def Let_def)

text \<open>
  C3, as amended. The credential carries a fresh \<^verbatim>\<open>id\<close>, \<^verbatim>\<open>vc:\<close> followed by the
  UUID drawn at issuance. For fixed inputs and a fixed timestamp every other field of the
  credential is the same whatever UUID is drawn, two issuances produce the identical object
  exactly when they drew the same UUID, and then the identical digest; the digest is the
  hash of the serialized object.
\<close>

theorem issue_determined_up_to_id:
  "\<exists>vc1 vc2 d1 d2 s1.
     issueVerifiableCredential now uuid1 cid farmerId batchId = Inr (vc1, d1) \<and>
     issueVerifiableCredential now uuid2 cid farmerId batchId = Inr (vc2, d2) \<and>
     getProp vc1 ''id'' = JStr (''vc:'' @ uuid1) \<and>
     getProp vc2 ''id'' = JStr (''vc:'' @ uuid2) \<and>
     (\<forall>k. k \<noteq> ''id'' \<longrightarrow> getProp vc1 k = getProp vc2 k) \<and>
     (vc1 = vc2 \<longleftrightarrow> uuid1 = uuid2) \<and>
     (uuid1 = uuid2 \<longrightarrow> d1 = d2) \<and>
     JSON_stringify vc1 = Some s1 \<and> d1 = sha256 s1"
  by (simp add: issueVerifiableCredential_def sha256_of_json_def Let_def)

text \<open>C3 at two issuances that differ in the UUID only.\<close>

theorem issue_determined_up_to_id_witness:
  "\<exists>vc1 vc2 d1 d2.
     issueVerifiableCredential ''t'' ''u1'' ''c'' ''f'' ''b'' = Inr (vc1, d1) \<and>
     issueVerifiableCredential ''t'' ''u2'' ''c'' ''f'' ''b'' = Inr (vc2, d2) \<and>
     getProp vc1 ''issuer'' = getProp vc2 ''issuer'' \<and>
     getProp vc1 ''proof'' = getProp vc2 ''proof'' \<and>
     vc1 \<noteq> vc2"
proof -
  from issue_determined_up_to_id [of "''t''" "''u1''" "''c''" "''f''" "''b''" "''u2''"]
  obtain vc1 vc2 d1 d2 where
    a: "issueVerifiableCredential ''t'' ''u1'' ''c'' ''f'' ''b'' = Inr (vc1, d1)"
       "issueVerifiableCredential ''t'' ''u2'' ''c'' ''f'' ''b'' = Inr (vc2, d2)" and
    b: "\<forall>k. k \<noteq> ''id'' \<longrightarrow> getProp vc1 k = getProp vc2 k" and
    c: "vc1 = vc2 \<longleftrightarrow> ''u1'' = ''u2''"
    by blast
  from b have "getProp vc1 ''issuer'' = getProp vc2 ''issuer''" "getProp vc1 ''proof'' = getProp vc2 ''proof''"
    by simp_all
  moreover from c have "vc1 \<noteq> vc2" by simp
  ultimately show ?thesis using a by blast
qed

lemma guard_rejects_absent:
  "getProp (getProp vcObject ''proof'') ''signatureValue'' = JUndefined \<or>
   getProp (getProp vcObject ''proof'') ''created'' = JUndefined \<or>
   getProp vcObject ''issuer'' = JUndefined \<Longrightarrow> validateVcSignature vcObject = Inr False"
  by (auto simp: validateVcSignature_def guard_rejects_def optMember_def nullish_def)

text \<open>
  C6. The guard fails closed on a missing \<^verbatim>\<open>proof.signatureValue\<close>,
  \<^verbatim>\<open>proof.created\<close> or \<^verbatim>\<open>issuer\<close>, but the claim that validation never throws
  does not hold of the code: a credential that passes the guard and has no
  \<^verbatim>\<open>credentialSubject\<close> makes the read of \<^verbatim>\<open>credentialSubject.cid\<close> throw.
\<close>

theorem validate_throws_without_subject:
  "validateVcSignature (JObj [
      (''issuer'', JStr ''did:agritrust:f''),
      (''proof'', JObj [(''created'', JStr ''t''), (''signatureValue'', JStr ''s'')])])
   = Inl (TypeError_read ''cid'')"
  by (simp add: validateVcSignature_def guard_rejects_def optMember_def member_def nullish_def)

lemma getProp_nullish: "nullish v \<Longrightarrow> getProp v k = JUndefined"
  by (auto simp: nullish_def)

lemma guard_passes:
  assumes "\<not> guard_rejects vcObject"
  shows "\<not> nullish vcObject" "\<not> nullish (getProp vcObject ''proof'')"
    "truthy (getProp (getProp vcObject ''proof'') ''signatureValue'')"
    "truthy (getProp (getProp vcObject ''proof'') ''created'')"
    "truthy (getProp vcObject ''issuer'')"
proof -
  from assms have i: "truthy (optMember vcObject ''issuer'')"
    and s: "truthy (optMember (optMember vcObject ''proof'') ''signatureValue'')"
    and c: "truthy (optMember (optMember vcObject ''proof'') ''created'')"
    by (simp_all add: guard_rejects_def)
  from i show n: "\<not> nullish vcObject"
    by (auto simp: optMember_def split: if_splits)
  then have p: "optMember vcObject ''proof'' = getProp vcObject ''proof''"
    by (simp add: optMember_def)
  from s p show np: "\<not> nullish (getProp vcObject ''proof'')"
    by (auto simp: optMember_def split: if_splits)
  from s p np show "truthy (getProp (getProp vcObject ''proof'') ''signatureValue'')"
    by (simp add: optMember_def)
  from c p np show "truthy (getProp (getProp vcObject ''proof'') ''created'')"
    by (simp add: optMember_def)
  from i n show "truthy (getProp vcObject ''issuer'')"
    by (simp add: optMember_def)
qed

lemma toStr_elems_defined:
  "toStr_elems xs \<noteq> None \<longleftrightarrow> (\<forall>x \<in> set xs. nullish x \<or> toStr x \<noteq> None)"
  by (induction xs) (auto split: option.splits)

lemma toStr_defined:
  "toStr JUndefined \<noteq> None" "toStr JNull \<noteq> None" "toStr (JBool b) \<noteq> None"
  "toStr (JNum r) \<noteq> None" "toStr (JStr str) \<noteq> None"
  "toStr (JObj kvs) \<noteq> None \<longleftrightarrow> ''toString'' \<notin> fst ` set kvs"
  "toStr (JArr xs) \<noteq> None \<longleftrightarrow> (\<forall>x \<in> set xs. nullish x \<or> toStr x \<noteq> None)"
  using toStr_elems_defined [of xs] by simp_all

text \<open>
  C10, as amended. \<^verbatim>\<open>validateVcSignature\<close> returns false when the guard rejects, that
  is when \<^verbatim>\<open>proof.signatureValue\<close>, \<^verbatim>\<open>proof.created\<close> or \<^verbatim>\<open>issuer\<close> is absent or
  otherwise falsy. Past the guard it reads \<^verbatim>\<open>credentialSubject.cid\<close> and
  \<^verbatim>\<open>credentialSubject.batchId\<close> unguarded. With a \<^verbatim>\<open>credentialSubject\<close> that is
  \<^verbatim>\<open>undefined\<close> or \<^verbatim>\<open>null\<close> the read of \<^verbatim>\<open>cid\<close> throws. With one that is neither,
  no field access fails; the function then returns a boolean when each of the four values
  of the template literal converts to a string, and throws the conversion error otherwise.
  Of the values, \<^verbatim>\<open>undefined\<close>, \<^verbatim>\<open>null\<close>, booleans, numbers and strings convert; an
  object converts exactly when it has no own member named \<^verbatim>\<open>toString\<close>; an array
  converts exactly when each element is \<^verbatim>\<open>undefined\<close>, is \<^verbatim>\<open>null\<close>, or converts.
\<close>

theorem validate_outcome_by_subject:
  "(guard_rejects vcObject \<longrightarrow> validateVcSignature vcObject = Inr False) \<and>
   (\<not> guard_rejects vcObject \<and> \<not> nullish (getProp vcObject ''credentialSubject'') \<longrightarrow>
      (\<forall>k. validateVcSignature vcObject \<noteq> Inl (TypeError_read k)) \<and>
      ((\<forall>v \<in> set (template_fields vcObject). toStr v \<noteq> None) \<longrightarrow>
         (\<exists>b. validateVcSignature vcObject = Inr b)) \<and>
      ((\<exists>v \<in> set (template_fields vcObject). toStr v = None) \<longrightarrow>
         validateVcSignature vcObject = Inl TypeError_convert)) \<and>
   (\<not> guard_rejects vcObject \<and> nullish (getProp vcObject ''credentialSubject'') \<longrightarrow>
      validateVcSignature vcObject = Inl (TypeError_read ''cid'')) \<and>
   toStr JUndefined \<noteq> None \<and> toStr JNull \<noteq> None \<and>
   (\<forall>b. toStr (JBool b) \<noteq> None) \<and> (\<forall>r. toStr (JNum r) \<noteq> None) \<and>
   (\<forall>str. toStr (JStr str) \<noteq> None) \<and>
   (\<forall>kvs. toStr (JObj kvs) \<noteq> None \<longleftrightarrow> ''toString'' \<notin> fst ` set kvs) \<and>
   (\<forall>xs. toStr (JArr xs) \<noteq> None \<longleftrightarrow> (\<forall>x \<in> set xs. nullish x \<or> toStr x \<noteq> None))"
proof (intro conjI impI)
  assume "guard_rejects vcObject"
  then show "validateVcSignature vcObject = Inr False"
    by (simp add: validateVcSignature_def)
next
  assume a: "\<not> guard_rejects vcObject \<and> \<not> nullish (getProp vcObject ''credentialSubject'')"
  with guard_passes [of vcObject] show "\<forall>k. validateVcSignature vcObject \<noteq> Inl (TypeError_read k)"
    by (simp add: validateVcSignature_def member_def toStringE_def Let_def split: option.splits)
next
  assume a: "\<not> guard_rejects vcObject \<and> \<not> nullish (getProp vcObject ''credentialSubject'')"
    and b: "\<forall>v \<in> set (template_fields vcObject). toStr v \<noteq> None"
  with guard_passes [of vcObject] show "\<exists>b. validateVcSignature vcObject = Inr b"
    by (auto simp: validateVcSignature_def member_def toStringE_def Let_def template_fields_def
        split: option.splits)
next
  assume a: "\<not> guard_rejects vcObject \<and> \<not> nullish (getProp vcObject ''credentialSubject'')"
    and b: "\<exists>v \<in> set (template_fields vcObject). toStr v = None"
  with guard_passes [of vcObject] show "validateVcSignature vcObject = Inl TypeError_convert"
    by (auto simp: validateVcSignature_def member_def toStringE_def Let_def template_fields_def
        split: option.splits)
next
  assume a: "\<not> guard_rejects vcObject \<and> nullish (getProp vcObject ''credentialSubject'')"
  with guard_passes [of vcObject] show "validateVcSignature vcObject = Inl (TypeError_read ''cid'')"
    by (simp add: validateVcSignature_def member_def)
qed (simp_all only: toStr_defined not_False_eq_True simp_thms)

text \<open>
  C10 as stated fails on credentials whose \<^verbatim>\<open>credentialSubject\<close> is present: an
  \<^verbatim>\<open>issuer\<close> object with an own \<^verbatim>\<open>toString\<close> member makes the template literal
  throw, and so does an \<^verbatim>\<open>issuer\<close> array that holds such an object.
\<close>

theorem validate_subject_present_counterexample:
  "validateVcSignature (JObj [
      (''issuer'', JObj [(''toString'', JNum ''1'')]),
      (''credentialSubject'', JObj [(''cid'', JStr ''c''), (''batchId'', JStr ''b'')]),
      (''proof'', JObj [(''created'', JStr ''t''), (''signatureValue'', JStr ''s'')])])
   = Inl TypeError_convert \<and>
   validateVcSignature (JObj [
      (''issuer'', JArr [JObj [(''toString'', JNum ''1'')]]),
      (''credentialSubject'', JObj [(''cid'', JStr ''c''), (''batchId'', JStr ''b'')]),
      (''proof'', JObj [(''created'', JStr ''t''), (''signatureValue'', JStr ''s'')])])
   = Inl TypeError_convert"
  by (simp add: validateVcSignature_def guard_rejects_def optMember_def member_def nullish_def
      toStringE_def)

text \<open>C10 at a credential with a subject, at the empty object, and at a credential whose
  subject is \<^verbatim>\<open>null\<close>.\<close>

theorem validate_outcome_by_subject_witness:
  "\<not> guard_rejects vc_demo \<and> \<not> nullish (getProp vc_demo ''credentialSubject'') \<and>
   validateVcSignature vc_demo \<noteq> Inl (TypeError_read ''cid'') \<and>
   (\<exists>b. validateVcSignature vc_demo = Inr b) \<and>
   guard_rejects (JObj []) \<and> validateVcSignature (JObj []) = Inr False \<and>
   validateVcSignature (JObj [
      (''issuer'', JStr ''did:agritrust:f''),
      (''credentialSubject'', JNull),
      (''proof'', JObj [(''created'', JStr ''t''), (''signatureValue'', JStr ''s'')])])
   = Inl (TypeError_read ''cid'') \<and>
   toStr (JArr [JNull, JObj [(''a'', JNum ''1'')]]) \<noteq> None \<and>
   toStr (JArr [JObj [(''toString'', JNum ''1'')]]) = None"
proof -
  let ?n = "JObj [
      (''issuer'', JStr ''did:agritrust:f''),
      (''credentialSubject'', JNull),
      (''proof'', JObj [(''created'', JStr ''t''), (''signatureValue'', JStr ''s'')])]"
  have g: "\<not> guard_rejects vc_demo" "\<not> nullish (getProp vc_demo ''credentialSubject'')"
    by (simp_all add: vc_demo_def guard_rejects_def optMember_def nullish_def)
  have t: "\<forall>v \<in> set (template_fields vc_demo). toStr v \<noteq> None"
    by (simp add: vc_demo_def template_fields_def)
  have e: "guard_rejects (JObj [])"
    by (simp add: guard_rejects_def optMember_def nullish_def)
  have n: "\<not> guard_rejects ?n" "nullish (getProp ?n ''credentialSubject'')"
    by (simp_all add: guard_rejects_def optMember_def nullish_def)
  have c: "toStr (JArr [JNull, JObj [(''a'', JNum ''1'')]]) \<noteq> None"
    "toStr (JArr [JObj [(''toString'', JNum ''1'')]]) = None"
    by (simp_all add: nullish_def)
  from validate_outcome_by_subject [of vc_demo] g t
  have d: "validateVcSignature vc_demo \<noteq> Inl (TypeError_read ''cid'')"
    "\<exists>b. validateVcSignature vc_demo = Inr b"
    by blast+
  from validate_outcome_by_subject [of "JObj []"] e
  have f: "validateVcSignature (JObj []) = Inr False"
    by blast
  from validate_outcome_by_subject [of ?n] n
  have r: "validateVcSignature ?n = Inl (TypeError_read ''cid'')"
    by blast
  from g d e f r c show ?thesis by simp
qed

subsection \<open>Transparency log\<close>

lemma append_step:
  "appendToTransparencyLog stored now vcDigest cid s =
     (length (ls_transparency_log s),
      if stored then
        s\<lparr>ls_transparency_log :=
            ls_transparency_log s @ [entry_of (ls_transparency_log s) (now, vcDigest, cid)]\<rparr>
      else s)"
  by (simp add: appendToTransparencyLog_def getTransparencyLog_def entry_of_def Let_def
      last_conv_nth setLocalStorageItem_def)

lemma chained_snoc:
  assumes "chained log"
  shows "chained (log @ [entry_of log arg])"
  unfolding chained_def
proof (intro allI impI)
  fix i assume i: "i < length (log @ [entry_of log arg])"
  show "le_index ((log @ [entry_of log arg]) ! i) = i \<and>
        le_previousHash ((log @ [entry_of log arg]) ! i) =
          (if i = 0 then None else Some (le_digest ((log @ [entry_of log arg]) ! (i - 1))))"
  proof (cases "i < length log")
    case True
    with assms show ?thesis
      by (auto simp: chained_def nth_append)
  next
    case False
    with i have "i = length log" by simp
    then show ?thesis
      by (cases "log = []") (auto simp: nth_append entry_of_def last_conv_nth)
  qed
qed

lemma appendAll_log:
  "appendAll args s = (ns, s') \<Longrightarrow>
     take (length (ls_transparency_log s)) (ls_transparency_log s') = ls_transparency_log s \<and>
     length (ls_transparency_log s') = length (ls_transparency_log s) + length (filter fst args) \<and>
     map (\<lambda>e. (le_timestamp e, le_digest e, le_cid e))
         (drop (length (ls_transparency_log s)) (ls_transparency_log s')) =
       map snd (filter fst args) \<and>
     (chained (ls_transparency_log s) \<longrightarrow> chained (ls_transparency_log s')) \<and>
     ((\<forall>a \<in> set args. fst a) \<longrightarrow>
        ns = [length (ls_transparency_log s) ..< length (ls_transparency_log s) + length args])"
proof (induction args arbitrary: s ns s')
  case Nil
  then show ?case by simp
next
  case (Cons arg args)
  obtain stored now vcDigest cid where arg: "arg = (stored, now, vcDigest, cid)"
    by (cases arg) auto
  show ?case
  proof (cases stored)
    case False
    obtain ns1 where rest: "appendAll args s = (ns1, s')"
      using Cons.prems False by (auto simp: arg append_step split: prod.splits)
    from Cons.IH [OF rest] False show ?thesis
      by (simp add: arg)
  next
    case True
    define s1 where "s1 = s\<lparr>ls_transparency_log :=
        ls_transparency_log s @ [entry_of (ls_transparency_log s) (now, vcDigest, cid)]\<rparr>"
    obtain ns1 where rest: "appendAll args s1 = (ns1, s')"
        and ns: "ns = length (ls_transparency_log s) # ns1"
      using Cons.prems True by (auto simp: arg append_step s1_def split: prod.splits)
    have len1: "length (ls_transparency_log s1) = Suc (length (ls_transparency_log s))"
      by (simp add: s1_def)
    note IH = Cons.IH [OF rest]
    have tk: "take (Suc (length (ls_transparency_log s))) (ls_transparency_log s') =
        ls_transparency_log s1"
      using IH len1 by simp
    have b: "take (length (ls_transparency_log s)) (ls_transparency_log s') = ls_transparency_log s"
    proof -
      have "take (length (ls_transparency_log s))
              (take (Suc (length (ls_transparency_log s))) (ls_transparency_log s'))
            = take (length (ls_transparency_log s)) (ls_transparency_log s1)"
        by (simp only: tk)
      then show ?thesis by (simp add: s1_def)
    qed
    have c: "length (ls_transparency_log s') =
        length (ls_transparency_log s) + length (filter fst (arg # args))"
      using IH len1 True by (simp add: arg)
    have nth: "ls_transparency_log s' ! length (ls_transparency_log s) =
        entry_of (ls_transparency_log s) (now, vcDigest, cid)"
    proof -
      have "ls_transparency_log s' ! length (ls_transparency_log s)
            = take (Suc (length (ls_transparency_log s))) (ls_transparency_log s')
                ! length (ls_transparency_log s)"
        by simp
      also have "\<dots> = ls_transparency_log s1 ! length (ls_transparency_log s)"
        by (simp only: tk)
      finally show ?thesis by (simp add: s1_def)
    qed
    have d: "map (\<lambda>e. (le_timestamp e, le_digest e, le_cid e))
          (drop (length (ls_transparency_log s)) (ls_transparency_log s')) =
        map snd (filter fst (arg # args))"
    proof -
      have "drop (length (ls_transparency_log s)) (ls_transparency_log s')
            = ls_transparency_log s' ! length (ls_transparency_log s)
                # drop (Suc (length (ls_transparency_log s))) (ls_transparency_log s')"
        using c True by (simp add: Cons_nth_drop_Suc arg)
      then show ?thesis
        using IH len1 nth True by (simp add: entry_of_def arg)
    qed
    have e: "chained (ls_transparency_log s) \<longrightarrow> chained (ls_transparency_log s')"
      using IH chained_snoc [of "ls_transparency_log s" "(now, vcDigest, cid)"]
      by (simp add: s1_def)
    have a: "(\<forall>a \<in> set (arg # args). fst a) \<longrightarrow>
        ns = [length (ls_transparency_log s) ..<
              length (ls_transparency_log s) + length (arg # args)]"
      using IH ns len1 by (simp add: upt_rec)
    from a b c d e show ?thesis by blast
  qed
qed

text \<open>
  C2 as stated fails: a call whose storage write fails returns the current length and
  appends nothing, and the next call returns the same index.
\<close>

theorem log_append_write_failure_counterexample:
  "appendToTransparencyLog False ''t0'' ''d0'' ''c0'' store_empty = (0, store_empty) \<and>
   fst (appendAll [(False, ''t0'', ''d0'', ''c0''), (True, ''t1'', ''d1'', ''c1'')] store_empty) =
     [0, 0]"
  by (simp add: append_step store_empty_def)

text \<open>
  C2, as amended. Every call, in any state, returns the current length \<open>n\<close>. When its
  storage write succeeds it extends the log by exactly one entry, with index \<open>n\<close> and with
  the digest of the last entry as its previous hash (none when the log is empty), leaving
  the existing entries in place; when the write fails the log is left as it was. After any
  sequential appends to an empty log, the log holds one entry for each call whose write
  succeeded, in call order and with the arguments of that call; entry \<open>i\<close> has index \<open>i\<close>,
  the first entry has no previous hash and every later one has the digest of its
  predecessor. When all \<open>N\<close> writes succeed the returned indices are \<open>0, ..., N - 1\<close> and
  the log has \<open>N\<close> entries.
\<close>

theorem log_append_chained:
  assumes "ls_transparency_log s = []" and "appendAll args s = (ns, s')"
  shows "(\<forall>stored now vcDigest cid t.
            appendToTransparencyLog stored now vcDigest cid t =
              (length (ls_transparency_log t),
               if stored then
                 t\<lparr>ls_transparency_log := ls_transparency_log t @
                    [\<lparr>le_index = length (ls_transparency_log t), le_digest = vcDigest,
                      le_previousHash =
                        (if ls_transparency_log t = [] then None
                         else Some (le_digest (last (ls_transparency_log t)))),
                      le_timestamp = now, le_cid = cid\<rparr>]\<rparr>
               else t)) \<and>
         map (\<lambda>e. (le_timestamp e, le_digest e, le_cid e)) (ls_transparency_log s') =
           map snd (filter fst args) \<and>
         (\<forall>i<length (ls_transparency_log s').
            le_index (ls_transparency_log s' ! i) = i \<and>
            le_previousHash (ls_transparency_log s' ! i) =
              (if i = 0 then None else Some (le_digest (ls_transparency_log s' ! (i - 1))))) \<and>
         ((\<forall>a \<in> set args. fst a) \<longrightarrow>
            ns = [0 ..< length args] \<and>
            length (ls_transparency_log s') = length args \<and>
            map (\<lambda>e. (le_timestamp e, le_digest e, le_cid e)) (ls_transparency_log s') =
              map snd args)"
proof -
  have step: "\<forall>stored now vcDigest cid t.
            appendToTransparencyLog stored now vcDigest cid t =
              (length (ls_transparency_log t),
               if stored then
                 t\<lparr>ls_transparency_log := ls_transparency_log t @
                    [\<lparr>le_index = length (ls_transparency_log t), le_digest = vcDigest,
                      le_previousHash =
                        (if ls_transparency_log t = [] then None
                         else Some (le_digest (last (ls_transparency_log t)))),
                      le_timestamp = now, le_cid = cid\<rparr>]\<rparr>
               else t)"
    by (simp add: append_step entry_of_def)
  have ch0: "chained (ls_transparency_log s)"
    using assms(1) by (simp add: chained_def)
  from appendAll_log [OF assms(2)] assms(1) ch0
  have len: "length (ls_transparency_log s') = length (filter fst args)"
    and mp: "map (\<lambda>e. (le_timestamp e, le_digest e, le_cid e)) (ls_transparency_log s') =
        map snd (filter fst args)"
    and ch: "chained (ls_transparency_log s')"
    and ns: "(\<forall>a \<in> set args. fst a) \<longrightarrow> ns = [0 ..< length args]"
    by simp_all
  from ch have idx: "\<forall>i<length (ls_transparency_log s').
            le_index (ls_transparency_log s' ! i) = i \<and>
            le_previousHash (ls_transparency_log s' ! i) =
              (if i = 0 then None else Some (le_digest (ls_transparency_log s' ! (i - 1))))"
    unfolding chained_def .
  have all: "(\<forall>a \<in> set args. fst a) \<longrightarrow>
            ns = [0 ..< length args] \<and>
            length (ls_transparency_log s') = length args \<and>
            map (\<lambda>e. (le_timestamp e, le_digest e, le_cid e)) (ls_transparency_log s') =
              map snd args"
  proof
    assume ok: "\<forall>a \<in> set args. fst a"
    then have "filter fst args = args" by simp
    with ok ns len mp show "ns = [0 ..< length args] \<and>
            length (ls_transparency_log s') = length args \<and>
            map (\<lambda>e. (le_timestamp e, le_digest e, le_cid e)) (ls_transparency_log s') =
              map snd args"
      by simp
  qed
  from step mp idx all show ?thesis by blast
qed

text \<open>C2 at three appends to the empty log, the second with a failing write.\<close>

theorem log_append_chained_witness:
  "ls_transparency_log store_empty = [] \<and>
   appendAll
     [(True, ''t0'', ''d0'', ''c0''), (False, ''t1'', ''d1'', ''c1''), (True, ''t2'', ''d2'', ''c2'')]
     store_empty =
     ([0, 1, 1],
      store_empty\<lparr>ls_transparency_log :=
        [\<lparr>le_index = 0, le_digest = ''d0'', le_previousHash = None,
          le_timestamp = ''t0'', le_cid = ''c0''\<rparr>,
         \<lparr>le_index = 1, le_digest = ''d2'', le_previousHash = Some ''d0'',
          le_timestamp = ''t2'', le_cid = ''c2''\<rparr>]\<rparr>) \<and>
   fst (appendAll [(True, ''t0'', ''d0'', ''c0''), (True, ''t1'', ''d1'', ''c1'')] store_empty) =
     [0, 1] \<and>
   length (ls_transparency_log
     (snd (appendAll [(True, ''t0'', ''d0'', ''c0''), (True, ''t1'', ''d1'', ''c1'')] store_empty))) = 2"
proof -
  let ?args = "[(True, ''t0'', ''d0'', ''c0''), (False, ''t1'', ''d1'', ''c1''),
                (True, ''t2'', ''d2'', ''c2'')]"
  let ?oks = "[(True, ''t0'', ''d0'', ''c0''), (True, ''t1'', ''d1'', ''c1'')]"
  have e: "ls_transparency_log store_empty = []"
    by (simp add: store_empty_def)
  have p: "appendAll ?args store_empty =
     ([0, 1, 1],
      store_empty\<lparr>ls_transparency_log :=
        [\<lparr>le_index = 0, le_digest = ''d0'', le_previousHash = None,
          le_timestamp = ''t0'', le_cid = ''c0''\<rparr>,
         \<lparr>le_index = 1, le_digest = ''d2'', le_previousHash = Some ''d0'',
          le_timestamp = ''t2'', le_cid = ''c2''\<rparr>]\<rparr>)"
    by (simp add: append_step entry_of_def store_empty_def)
  obtain ns s' where q: "appendAll ?oks store_empty = (ns, s')"
    by (cases "appendAll ?oks store_empty") blast
  have ok: "\<forall>a \<in> set ?oks. fst a" by simp
  from log_append_chained [OF e q] ok
  have "ns = [0 ..< length ?oks] \<and> length (ls_transparency_log s') = length ?oks"
    by blast
  then have r: "ns = [0, 1]" "length (ls_transparency_log s') = 2"
    by (simp_all add: upt_rec)
  from log_append_chained [OF e p] e p q r show ?thesis
    by (simp only: fst_conv snd_conv simp_thms)
qed

lemma check_first_match:
  "(checkTransparencyLog s vcDigest expectedCid = \<lparr>lc_exists = True, lc_consistent = True\<rparr> \<longleftrightarrow>
      (\<exists>i<length (getTransparencyLog s).
          le_digest (getTransparencyLog s ! i) = vcDigest \<and>
          (\<forall>j<i. le_digest (getTransparencyLog s ! j) \<noteq> vcDigest) \<and>
          le_cid (getTransparencyLog s ! i) = expectedCid)) \<and>
   (checkTransparencyLog s vcDigest expectedCid = \<lparr>lc_exists = False, lc_consistent = False\<rparr> \<longleftrightarrow>
      (\<forall>e \<in> set (getTransparencyLog s). le_digest e \<noteq> vcDigest))"
proof (cases "find (\<lambda>e. le_digest e = vcDigest) (getTransparencyLog s)")
  case None
  have val: "checkTransparencyLog s vcDigest expectedCid = \<lparr>lc_exists = False, lc_consistent = False\<rparr>"
    by (simp add: checkTransparencyLog_def None)
  from None have no: "\<forall>e \<in> set (getTransparencyLog s). le_digest e \<noteq> vcDigest"
    by (auto simp: find_None_iff)
  then have "\<not> (\<exists>i<length (getTransparencyLog s). le_digest (getTransparencyLog s ! i) = vcDigest)"
    using nth_mem by blast
  with val no show ?thesis by auto
next
  case (Some entry)
  then obtain i where i: "i < length (getTransparencyLog s)"
      "le_digest (getTransparencyLog s ! i) = vcDigest" "entry = getTransparencyLog s ! i"
      "\<forall>j<i. le_digest (getTransparencyLog s ! j) \<noteq> vcDigest"
    by (auto simp: find_Some_iff)
  have uniq: "i' = i" if "i' < length (getTransparencyLog s)"
      "le_digest (getTransparencyLog s ! i') = vcDigest"
      "\<forall>j<i'. le_digest (getTransparencyLog s ! j) \<noteq> vcDigest" for i'
  proof (rule ccontr)
    assume "i' \<noteq> i"
    then consider "i' < i" | "i < i'" by linarith
    then show False
    proof cases
      case 1
      with i(4) that(2) show False by blast
    next
      case 2
      with that(3) i(2) show False by blast
    qed
  qed
  have ex: "\<not> (\<forall>e \<in> set (getTransparencyLog s). le_digest e \<noteq> vcDigest)"
    using nth_mem [OF i(1)] i(2) by blast
  have val: "checkTransparencyLog s vcDigest expectedCid =
      (if le_cid entry \<noteq> expectedCid then \<lparr>lc_exists = True, lc_consistent = False\<rparr>
       else \<lparr>lc_exists = True, lc_consistent = True\<rparr>)"
    by (simp add: checkTransparencyLog_def Some)
  show ?thesis
  proof (cases "le_cid entry = expectedCid")
    case True
    then have "checkTransparencyLog s vcDigest expectedCid = \<lparr>lc_exists = True, lc_consistent = True\<rparr>"
      using val by simp
    moreover have "\<exists>i<length (getTransparencyLog s).
          le_digest (getTransparencyLog s ! i) = vcDigest \<and>
          (\<forall>j<i. le_digest (getTransparencyLog s ! j) \<noteq> vcDigest) \<and>
          le_cid (getTransparencyLog s ! i) = expectedCid"
      using i True by blast
    ultimately show ?thesis using ex by simp
  next
    case False
    then have v: "checkTransparencyLog s vcDigest expectedCid = \<lparr>lc_exists = True, lc_consistent = False\<rparr>"
      using val by simp
    have "\<not> (\<exists>i<length (getTransparencyLog s).
          le_digest (getTransparencyLog s ! i) = vcDigest \<and>
          (\<forall>j<i. le_digest (getTransparencyLog s ! j) \<noteq> vcDigest) \<and>
          le_cid (getTransparencyLog s ! i) = expectedCid)"
      using uniq i(3) False by blast
    with v ex show ?thesis by simp
  qed
qed

lemma check_true_iff_find:
  "checkTransparencyLog s vcDigest expectedCid = \<lparr>lc_exists = True, lc_consistent = True\<rparr> \<longleftrightarrow>
     (\<exists>e. find (\<lambda>e. le_digest e = vcDigest) (getTransparencyLog s) = Some e \<and> le_cid e = expectedCid)"
  by (auto simp: checkTransparencyLog_def split: option.splits)

lemma find_set: "find P xs = Some x \<Longrightarrow> x \<in> set xs \<and> P x"
  by (induction xs) (auto split: if_splits)

lemma check_true_unique:
  assumes "distinct (map le_digest (getTransparencyLog s))"
  shows "checkTransparencyLog s vcDigest expectedCid = \<lparr>lc_exists = True, lc_consistent = True\<rparr> \<longleftrightarrow>
     (\<exists>e \<in> set (getTransparencyLog s). le_digest e = vcDigest \<and> le_cid e = expectedCid)"
proof
  assume "checkTransparencyLog s vcDigest expectedCid = \<lparr>lc_exists = True, lc_consistent = True\<rparr>"
  then obtain e where "find (\<lambda>e. le_digest e = vcDigest) (getTransparencyLog s) = Some e"
      "le_cid e = expectedCid"
    using check_true_iff_find by blast
  with find_set [of "\<lambda>e. le_digest e = vcDigest" "getTransparencyLog s" e]
  show "\<exists>e \<in> set (getTransparencyLog s). le_digest e = vcDigest \<and> le_cid e = expectedCid"
    by blast
next
  assume "\<exists>e \<in> set (getTransparencyLog s). le_digest e = vcDigest \<and> le_cid e = expectedCid"
  then obtain e where e: "e \<in> set (getTransparencyLog s)" "le_digest e = vcDigest"
      "le_cid e = expectedCid"
    by blast
  then have "find (\<lambda>e. le_digest e = vcDigest) (getTransparencyLog s) \<noteq> None"
    by (auto simp: find_None_iff)
  then obtain e' where f: "find (\<lambda>e. le_digest e = vcDigest) (getTransparencyLog s) = Some e'"
    by blast
  with find_set [of "\<lambda>e. le_digest e = vcDigest" "getTransparencyLog s" e']
  have e': "e' \<in> set (getTransparencyLog s)" "le_digest e' = vcDigest"
    by simp_all
  from assms have "inj_on le_digest (set (getTransparencyLog s))"
    by (simp add: distinct_map)
  with e e' have "e' = e"
    by (auto dest: inj_onD)
  with f e(3) show "checkTransparencyLog s vcDigest expectedCid = \<lparr>lc_exists = True, lc_consistent = True\<rparr>"
    using check_true_iff_find by blast
qed

text \<open>
  C4. \<^verbatim>\<open>checkTransparencyLog\<close> answers for the first entry in scan order whose digest
  is the given one: it returns \<^verbatim>\<open>{exists: true, consistent: true}\<close> if and only if such
  an entry exists and the first of them stores the expected cid, and
  \<^verbatim>\<open>{exists: false, consistent: false}\<close> if and only if no entry has the digest. Where
  the digests of the log are distinct, the first answer is given if and only if some entry
  has the digest and stores the expected cid.
\<close>

theorem checkTransparencyLog_first_match:
  "(checkTransparencyLog s vcDigest expectedCid = \<lparr>lc_exists = True, lc_consistent = True\<rparr> \<longleftrightarrow>
      (\<exists>i<length (getTransparencyLog s).
          le_digest (getTransparencyLog s ! i) = vcDigest \<and>
          (\<forall>j<i. le_digest (getTransparencyLog s ! j) \<noteq> vcDigest) \<and>
          le_cid (getTransparencyLog s ! i) = expectedCid)) \<and>
   (checkTransparencyLog s vcDigest expectedCid = \<lparr>lc_exists = False, lc_consistent = False\<rparr> \<longleftrightarrow>
      (\<forall>e \<in> set (getTransparencyLog s). le_digest e \<noteq> vcDigest)) \<and>
   (distinct (map le_digest (getTransparencyLog s)) \<longrightarrow>
      (checkTransparencyLog s vcDigest expectedCid = \<lparr>lc_exists = True, lc_consistent = True\<rparr> \<longleftrightarrow>
         (\<exists>e \<in> set (getTransparencyLog s). le_digest e = vcDigest \<and> le_cid e = expectedCid)))"
  using check_first_match [of s vcDigest expectedCid] check_true_unique [of s vcDigest expectedCid]
  by blast

text \<open>C4 on a log that holds the same digest twice, with different cids.\<close>

theorem checkTransparencyLog_first_match_witness:
  "checkTransparencyLog store_dup ''d'' ''c0'' = \<lparr>lc_exists = True, lc_consistent = True\<rparr> \<and>
   checkTransparencyLog store_dup ''d'' ''c1'' = \<lparr>lc_exists = True, lc_consistent = False\<rparr> \<and>
   checkTransparencyLog store_dup ''x'' ''c0'' = \<lparr>lc_exists = False, lc_consistent = False\<rparr>"
proof -
  have a: "\<exists>i<length (getTransparencyLog store_dup).
          le_digest (getTransparencyLog store_dup ! i) = ''d'' \<and>
          (\<forall>j<i. le_digest (getTransparencyLog store_dup ! j) \<noteq> ''d'') \<and>
          le_cid (getTransparencyLog store_dup ! i) = ''c0''"
    by (rule exI [of _ 0]) (simp add: store_dup_def store_empty_def getTransparencyLog_def)
  have b: "\<forall>e \<in> set (getTransparencyLog store_dup). le_digest e \<noteq> ''x''"
    by (simp add: store_dup_def store_empty_def getTransparencyLog_def)
  have c: "checkTransparencyLog store_dup ''d'' ''c1'' = \<lparr>lc_exists = True, lc_consistent = False\<rparr>"
    by (simp add: checkTransparencyLog_def store_dup_def store_empty_def getTransparencyLog_def)
  from checkTransparencyLog_first_match [of store_dup "''d''" "''c0''"]
    checkTransparencyLog_first_match [of store_dup "''x''" "''c0''"] a b c
  show ?thesis by blast
qed

subsection \<open>Consumer codes\<close>

text \<open>
  For every consumer code other than \<^verbatim>\<open>__proto__\<close>, a put whose write succeeds is
  followed by a lookup that returns the triple; a put leaves the result for every other code
  as it was; and a put whose write fails leaves the whole store as it was.
\<close>

lemma code_mapping_put_get_stored:
  "consumerCode \<noteq> ''__proto__'' \<Longrightarrow>
     getCodeMapping (addCodeMapping True consumerCode cid vcDigest batchId s) consumerCode =
       Mapping \<lparr>ce_cid = cid, ce_vcDigest = vcDigest, ce_batchId = batchId\<rparr>"
  by (simp add: getCodeMapping_def addCodeMapping_def setLocalStorageItem_def)

lemma code_mapping_put_others:
  "c' \<noteq> consumerCode \<Longrightarrow>
     getCodeMapping (addCodeMapping stored consumerCode cid vcDigest batchId s) c' =
       getCodeMapping s c'"
  by (simp add: getCodeMapping_def addCodeMapping_def setLocalStorageItem_def Let_def)

lemma code_mapping_put_not_stored:
  "addCodeMapping False consumerCode cid vcDigest batchId s = s"
  by (simp add: addCodeMapping_def setLocalStorageItem_def)

text \<open>
  C9. The claim does not hold of the code at the consumer code \<^verbatim>\<open>__proto__\<close>: the
  put, with its write succeeding, stores nothing, and the lookup that follows returns what
  the index inherits under that name, not the triple that was put.
\<close>

theorem code_mapping_proto_not_stored:
  "addCodeMapping True ''__proto__'' ''c'' ''d'' ''b'' store_empty = store_empty \<and>
   getCodeMapping (addCodeMapping True ''__proto__'' ''c'' ''d'' ''b'' store_empty) ''__proto__'' =
     Inherited ''__proto__''"
  by (simp add: getCodeMapping_def addCodeMapping_def setLocalStorageItem_def store_empty_def
      object_prototype_names_def)

subsection \<open>Submission\<close>

lemma tempCode_nonempty: "tempCode env i \<noteq> []"
  by (simp add: tempCode_def Let_def)

lemma lookup_truthy_iff: "lookup_truthy r \<longleftrightarrow> r \<noteq> Undefined"
  by (cases r) simp_all

lemma generateCode_found:
  "generateCode env s n \<noteq> [] \<Longrightarrow> getCodeMapping s (generateCode env s n) = Undefined"
proof (induction env s n rule: generateCode.induct)
  case (1 env s attempts)
  show ?case
  proof (cases "attempts < 100")
    case False
    with "1.prems" show ?thesis by (simp add: generateCode.simps)
  next
    case True
    show ?thesis
    proof (cases "lookup_truthy (getCodeMapping s (tempCode env attempts))")
      case False
      with True show ?thesis
        by (simp add: generateCode.simps [of env s attempts] lookup_truthy_iff)
    next
      case t: True
      with True have eq: "generateCode env s attempts = generateCode env s (attempts + 1)"
        by (simp add: generateCode.simps [of env s attempts])
      with "1.IH" [OF True] t "1.prems" show ?thesis by simp
    qed
  qed
qed

lemma generateCode_exhausted:
  "(\<forall>i. n \<le> i \<and> i < 100 \<longrightarrow> lookup_truthy (getCodeMapping s (tempCode env i))) \<Longrightarrow>
     generateCode env s n = []"
proof (induction env s n rule: generateCode.induct)
  case (1 env s attempts)
  show ?case
  proof (cases "attempts < 100")
    case False
    then show ?thesis by (simp add: generateCode.simps)
  next
    case True
    with "1.prems" have t: "lookup_truthy (getCodeMapping s (tempCode env attempts))" by simp
    from "1.prems" have "\<forall>i. attempts + 1 \<le> i \<and> i < 100 \<longrightarrow> lookup_truthy (getCodeMapping s (tempCode env i))"
      by simp
    with "1.IH" [OF True] t have "generateCode env s (attempts + 1) = []" by simp
    with True t show ?thesis
      by (simp add: generateCode.simps [of env s attempts])
  qed
qed

lemma bindM_failE:
  assumes "bindM m f s = (Inl e, s')"
  obtains "m s = (Inl e, s')" | x s1 where "m s = (Inr x, s1)" "f x s1 = (Inl e, s')"
  using assms by (auto simp: bindM_def split: prod.splits sum.splits)

lemma call_liftE_Inr:
  "call env st (liftE r) s = (Inr x, s1) \<Longrightarrow> s1 = s"
  by (auto simp: call_def liftE_def throwM_def split: option.splits)

lemma call_liftE_Inl:
  "call env st (liftE r) s = (Inl e, s1) \<Longrightarrow> s1 = s"
  by (auto simp: call_def liftE_def throwM_def split: option.splits)

lemma call_writeM_Inr:
  "call env st (writeM g) s = (Inr x, s1) \<Longrightarrow> s1 = g s"
  by (auto simp: call_def writeM_def throwM_def split: option.splits)

lemma call_writeM_Inl:
  "call env st (writeM g) s = (Inl e, s1) \<Longrightarrow> s1 = s"
  by (auto simp: call_def writeM_def throwM_def split: option.splits)

lemma addClaims_codes:
  "addClaims env i cs s = (r, s1) \<Longrightarrow> ls_codes s1 = ls_codes s"
proof (induction cs arbitrary: i s)
  case Nil
  then show ?case by (simp add: pureM_def)
next
  case (Cons c cs)
  then show ?case
    by (auto simp: bindM_def call_def writeM_def throwM_def addClaim_def setLocalStorageItem_def
        split: option.splits prod.splits sum.splits)
qed

lemma ls_codes_append [simp]:
  "ls_codes (snd (appendToTransparencyLog stored now d c s)) = ls_codes s"
  by (simp add: appendToTransparencyLog_def Let_def setLocalStorageItem_def)

lemma ls_codes_addBatch [simp]: "ls_codes (addBatch stored b s) = ls_codes s"
  by (simp add: addBatch_def setLocalStorageItem_def)

lemma submit_try_fail_codes:
  assumes "submit_try env userId batchData claims s = (Inl e, s')"
  shows "ls_codes s' = ls_codes s"
proof (cases "generateCode env s 0 = []")
  case True
  with assms show ?thesis by (simp add: submit_try_def throwM_def)
next
  case code: False
  show ?thesis
  proof (cases "getFarmerById s userId")
    case None
    with assms code show ?thesis by (simp add: submit_try_def throwM_def Let_def)
  next
    case (Some frm)
    from assms code Some show ?thesis
      unfolding submit_try_def Let_def
      apply simp
      apply (erule bindM_failE)
       apply (drule call_liftE_Inl, simp)
      apply (drule call_liftE_Inr)
      apply (erule bindM_failE)
       apply (drule call_liftE_Inl, simp)
      apply (drule call_liftE_Inr)
      apply (erule bindM_failE)
       apply (drule call_writeM_Inl, simp)
      apply (drule call_writeM_Inr)
      apply (erule bindM_failE)
       apply (drule call_writeM_Inl, simp)
      apply (drule call_writeM_Inr)
      apply (erule bindM_failE)
       apply (drule addClaims_codes, simp)
      apply (drule addClaims_codes)
      apply (erule bindM_failE)
       apply (drule call_writeM_Inl, simp)
      apply (drule call_writeM_Inr)
      apply (erule bindM_failE)
       apply (simp add: writeM_def)
      apply (simp add: pureM_def)
      done
  qed
qed

text \<open>
  C7. Whenever the submission ends with the general error, whatever step failed, the code
  index is what it was before: every lookup returns what it returned before, and the
  consumer code that the run generated, if it generated one, is still not found.
\<close>

theorem failed_submit_not_visible:
  assumes "handleFinalSubmit env inputsValid userId batchData claims s = (GeneralError msg, s')"
  shows "ls_codes s' = ls_codes s \<and>
         (\<forall>c. getCodeMapping s' c = getCodeMapping s c) \<and>
         (generateCode env s 0 \<noteq> [] \<longrightarrow> getCodeMapping s' (generateCode env s 0) = Undefined)"
proof -
  have codes: "ls_codes s' = ls_codes s"
  proof (cases "inputsValid \<and> userId \<noteq> None \<and> userId \<noteq> Some []")
    case False
    with assms show ?thesis
      by (auto simp: handleFinalSubmit_def split: option.splits if_splits)
  next
    case True
    then obtain uid where uid: "userId = Some uid" "uid \<noteq> []" by auto
    obtain r s1 where run: "submit_try env uid batchData claims s = (r, s1)"
      by (cases "submit_try env uid batchData claims s") auto
    with assms True uid obtain e where "r = Inl e" "s1 = s'"
      by (cases r) (auto simp: handleFinalSubmit_def)
    with run submit_try_fail_codes show ?thesis by blast
  qed
  then have "\<forall>c. getCodeMapping s' c = getCodeMapping s c"
    by (simp add: getCodeMapping_def)
  with codes generateCode_found show ?thesis by simp
qed

lemma tempCode_demo: "tempCode env_demo i = ''AGRITRUST-261102-1234''"
  by (simp add: tempCode_def env_demo_def Let_def dec.simps digit_char_def padStart2_def
      slice_last2_def)

text \<open>C7 at a submission that fails because the farmer record is missing.\<close>

theorem failed_submit_not_visible_witness:
  "handleFinalSubmit env_demo True (Some ''20230115-greenacres-1234'') [] [] store_empty =
     (GeneralError ''Farmer details missing for submission.'', store_empty) \<and>
   generateCode env_demo store_empty 0 = ''AGRITRUST-261102-1234'' \<and>
   getCodeMapping store_empty ''AGRITRUST-261102-1234'' = Undefined"
proof -
  have g: "generateCode env_demo store_empty 0 = ''AGRITRUST-261102-1234''"
    by (simp add: generateCode.simps [of _ _ 0] tempCode_demo getCodeMapping_def store_empty_def
        object_prototype_names_def)
  have h: "handleFinalSubmit env_demo True (Some ''20230115-greenacres-1234'') [] [] store_empty =
     (GeneralError ''Farmer details missing for submission.'', store_empty)"
    by (simp add: handleFinalSubmit_def submit_try_def g getFarmerById_def)
       (simp add: store_empty_def throwM_def)
  from failed_submit_not_visible [OF h] g h show ?thesis by simp
qed

text \<open>
  C8. When all hundred attempts produce a code that the index already holds, the submission
  raises the error of the exhausted code generation and leaves the whole store (batches,
  claims, code index, transparency log) unchanged.
\<close>

theorem code_generation_exhausted:
  assumes "\<forall>i<100. lookup_truthy (getCodeMapping s (tempCode env i))"
  shows "submit_try env userId batchData claims s =
           (Inl (Error ''Failed to generate a unique consumer code after multiple attempts.''), s) \<and>
         (userId \<noteq> [] \<longrightarrow>
            handleFinalSubmit env True (Some userId) batchData claims s =
              (GeneralError ''Failed to generate a unique consumer code after multiple attempts.'', s))"
proof -
  from assms have "generateCode env s 0 = []"
    by (intro generateCode_exhausted) simp
  then have "submit_try env userId batchData claims s =
           (Inl (Error ''Failed to generate a unique consumer code after multiple attempts.''), s)"
    by (simp add: submit_try_def throwM_def)
  then show ?thesis
    by (simp add: handleFinalSubmit_def)
qed

text \<open>C8 at a random source that keeps drawing the one code that is taken.\<close>

theorem code_generation_exhausted_witness:
  "submit_try env_demo ''20230115-greenacres-1234'' [] [] store_taken =
     (Inl (Error ''Failed to generate a unique consumer code after multiple attempts.''), store_taken) \<and>
   handleFinalSubmit env_demo True (Some ''20230115-greenacres-1234'') [] [] store_taken =
     (GeneralError ''Failed to generate a unique consumer code after multiple attempts.'', store_taken)"
proof -
  have h: "\<forall>i<100. lookup_truthy (getCodeMapping store_taken (tempCode env_demo i))"
    by (simp add: tempCode_demo getCodeMapping_def store_taken_def store_empty_def)
  from code_generation_exhausted [OF h, of "''20230115-greenacres-1234''" "[]" "[]"] show ?thesis by simp
qed

end
